theory Spec2Isabelle
  imports Complex_Main "HOL-Library.Sublist" "HOL-Library.Char_ord" "HOL-Library.List_Lexorder"
begin

section \<open>Python values and exceptions\<close>

text \<open>
  The exceptions that the modelled functions of \<^verbatim>\<open>modules/config.py\<close> and
  \<^verbatim>\<open>modules/loading.py\<close> can raise. A function that may raise returns
  \<open>py_error + 'a\<close>, with \<open>Inl\<close> for the exception. The repository defines no
  exception class of its own.
\<close>

datatype py_error =
    ValueError
  | KeyError
  | TypeError
  | ZeroDivisionError
  | InvalidIndexError
  | RequestError
  | OSError

text \<open>
  The values a caller can hand to \<^verbatim>\<open>config.set_global_meteo\<close>. Floats are
  idealised as reals (no NaN, no infinities).
\<close>

datatype py_value = PyBool bool | PyInt int | PyFloat real | PyStr string | PyNone

fun py_num :: "py_value \<Rightarrow> real option" where
  "py_num (PyBool b) = Some (if b then 1 else 0)"
| "py_num (PyInt i) = Some (real_of_int i)"
| "py_num (PyFloat r) = Some r"
| "py_num (PyStr s) = None"
| "py_num PyNone = None"

text \<open>Python's \<^verbatim>\<open>==\<close>: numbers (bool, int, float) compare by value across types.\<close>

definition py_eq :: "py_value \<Rightarrow> py_value \<Rightarrow> bool" where
  "py_eq a b = (case (py_num a, py_num b) of
                  (Some x, Some y) \<Rightarrow> x = y
                | (None, None) \<Rightarrow> a = b
                | _ \<Rightarrow> False)"

text \<open>\<^verbatim>\<open>x in xs\<close> on a list: some element is \<^verbatim>\<open>x\<close> itself or equal to it.\<close>

definition py_in :: "py_value \<Rightarrow> py_value list \<Rightarrow> bool" where
  "py_in x xs = list_ex (\<lambda>e. x = e \<or> py_eq x e) xs"

text \<open>Truth value of an object, as \<^verbatim>\<open>if config.global_meteo:\<close> takes it.\<close>

fun py_truthy :: "py_value \<Rightarrow> bool" where
  "py_truthy (PyBool b) = b"
| "py_truthy (PyInt i) = (i \<noteq> 0)"
| "py_truthy (PyFloat r) = (r \<noteq> 0)"
| "py_truthy (PyStr s) = (s \<noteq> [])"
| "py_truthy PyNone = False"

section \<open>The configuration object (modules/config.py)\<close>

type_synonym timestamp = nat

text \<open>
  A date held by the configuration: the class stores \<^verbatim>\<open>pd.to_datetime(...)\<close>, a
  Timestamp, while \<^verbatim>\<open>load_meteo_file\<close> and \<^verbatim>\<open>download_meteo_file\<close> document a
  string \<^verbatim>\<open>YYYY-MM-DD\<close>.
\<close>

datatype py_date = DateStr string | DateStamp timestamp

record config =
  freq :: string
  global_meteo :: py_value
  custom_dates :: bool
  start_date :: py_date
  end_date :: py_date
  save_dir :: "(string \<times> string) list"

definition set_global_meteo :: "config \<Rightarrow> py_value \<Rightarrow> py_error + config" where
  "set_global_meteo self g =
     (if \<not> py_in g [PyBool True, PyBool False] then Inl ValueError
      else Inr (self\<lparr>global_meteo := g\<rparr>))"

section \<open>The station registry and its weights (modules/loading.py)\<close>

text \<open>
  One entry of \<^verbatim>\<open>station_to_canton\<close>. The keys \<^verbatim>\<open>station_id\<close> and \<^verbatim>\<open>canton\<close> are on
  every entry; \<^verbatim>\<open>population\<close>, \<^verbatim>\<open>district\<close>, \<^verbatim>\<open>canton_pop\<close> and the derived
  \<^verbatim>\<open>weight\<close> are optional keys, \<open>None\<close> when the key is absent. The registry is a dict
  in insertion order: an association list with distinct names. Python's true division
  of ints gives a float, idealised here as a real.
\<close>

record station =
  station_id :: string
  canton :: string
  population :: "int option"
  district :: "int option"
  canton_pop :: "int option"
  weight :: "real option"

type_synonym registry = "(string \<times> station) list"

text \<open>
  First loop of \<^verbatim>\<open>compute_station_weights\<close>: the first station seen of each canton
  enters the canton's total into \<^verbatim>\<open>cantons\<close> and adds it to \<^verbatim>\<open>tt_ch_pop\<close>.
\<close>

fun canton_totals ::
  "registry \<Rightarrow> (string \<times> int) list \<Rightarrow> int \<Rightarrow> py_error + ((string \<times> int) list \<times> int)" where
  "canton_totals [] cantons tt_ch_pop = Inr (cantons, tt_ch_pop)"
| "canton_totals ((name, info) # rest) cantons tt_ch_pop =
     (if canton info \<notin> set (map fst cantons) then
        (case canton_pop info of
           None \<Rightarrow> Inl KeyError
         | Some p \<Rightarrow> canton_totals rest (cantons @ [(canton info, p)]) (tt_ch_pop + p))
      else canton_totals rest cantons tt_ch_pop)"

text \<open>Second loop: every canton total is divided by the national total.\<close>

fun normalize_cantons :: "(string \<times> int) list \<Rightarrow> int \<Rightarrow> py_error + (string \<times> real) list" where
  "normalize_cantons [] tt_ch_pop = Inr []"
| "normalize_cantons ((c, pop) # rest) tt_ch_pop =
     (if tt_ch_pop = 0 then Inl ZeroDivisionError
      else (case normalize_cantons rest tt_ch_pop of
              Inl e \<Rightarrow> Inl e
            | Inr ws \<Rightarrow> Inr ((c, real_of_int pop / real_of_int tt_ch_pop) # ws)))"

text \<open>The inner loop of the third loop: the populations reported in a canton, added up.\<close>

fun canton_tt_pop :: "string \<Rightarrow> registry \<Rightarrow> int" where
  "canton_tt_pop c [] = 0"
| "canton_tt_pop c ((station2, info2) # rest) =
     (case population info2 of
        Some p \<Rightarrow> (if c = canton info2 then p + canton_tt_pop c rest else canton_tt_pop c rest)
      | None \<Rightarrow> canton_tt_pop c rest)"

text \<open>The local weight of one station, \<^verbatim>\<open>weight\<close> in the source.\<close>

definition local_weight :: "registry \<Rightarrow> station \<Rightarrow> py_error + real" where
  "local_weight reg info =
     (if canton_tt_pop (canton info) reg = 0 then Inr 1
      else (case population info of
              None \<Rightarrow> Inl KeyError
            | Some p \<Rightarrow> Inr (real_of_int p / real_of_int (canton_tt_pop (canton info) reg))))"

text \<open>Third loop: every station gets its \<^verbatim>\<open>weight\<close> key.\<close>

fun station_weights :: "registry \<Rightarrow> (string \<times> real) list \<Rightarrow> registry \<Rightarrow> py_error + registry" where
  "station_weights reg cantons [] = Inr []"
| "station_weights reg cantons ((name, info) # rest) =
     (case local_weight reg info of
        Inl e \<Rightarrow> Inl e
      | Inr w \<Rightarrow>
          (case map_of cantons (canton info) of
             None \<Rightarrow> Inl KeyError
           | Some cw \<Rightarrow>
               (case station_weights reg cantons rest of
                  Inl e \<Rightarrow> Inl e
                | Inr out \<Rightarrow> Inr ((name, info\<lparr>weight := Some (w * cw)\<rparr>) # out))))"

definition compute_station_weights :: "registry \<Rightarrow> py_error + registry" where
  "compute_station_weights station_to_canton =
     (case canton_totals station_to_canton [] 0 of
        Inl e \<Rightarrow> Inl e
      | Inr (cantons, tt_ch_pop) \<Rightarrow>
          (case normalize_cantons cantons tt_ch_pop of
             Inl e \<Rightarrow> Inl e
           | Inr cws \<Rightarrow> station_weights station_to_canton cws station_to_canton))"

text \<open>The sum of the weights of a registry (an absent weight counts as nothing).\<close>

definition weight_sum :: "registry \<Rightarrow> real" where
  "weight_sum reg = sum_list (map (\<lambda>(name, info). case weight info of Some w \<Rightarrow> w | None \<Rightarrow> 0) reg)"

definition mk_station :: "string \<Rightarrow> string \<Rightarrow> int option \<Rightarrow> int option \<Rightarrow> int option \<Rightarrow> station" where
  "mk_station sid c p d cp =
     \<lparr>station_id = sid, canton = c, population = p, district = d, canton_pop = cp, weight = None\<rparr>"


definition region_weight :: "registry \<Rightarrow> string \<Rightarrow> real" where
  \<comment> \<open>the value \<^verbatim>\<open>cantons[c]['weight']\<close> holds after the second loop\<close>
  "region_weight reg c =
     (case canton_totals reg [] 0 of
        Inl e \<Rightarrow> 0
      | Inr (cantons, tt_ch_pop) \<Rightarrow>
          (case map_of cantons c of
             None \<Rightarrow> 0
           | Some pop \<Rightarrow> real_of_int pop / real_of_int tt_ch_pop))"

text \<open>
  A region the third loop treats as its author's registry does: either some population
  is reported and then every station of the region reports one, or none is and the
  region has a single station.
\<close>

definition region_ok :: "registry \<Rightarrow> string \<Rightarrow> bool" where
  "region_ok reg c =
     (if canton_tt_pop c reg = 0 then length (filter (\<lambda>x. canton (snd x) = c) reg) = 1
      else list_all (\<lambda>x. population (snd x) \<noteq> None) (filter (\<lambda>x. canton (snd x) = c) reg))"

text \<open>The registry of \<^verbatim>\<open>loading.py\<close>, in its order.\<close>

definition station_to_canton :: registry where
  "station_to_canton =
     [(''Adelboden'', mk_station ''ABO'' ''BE'' (Some 3340) (Some 40674) (Some 1047473)),
      (''Bern_Zollikofen'', mk_station ''BER'' ''BE'' (Some 10825) (Some 418858) (Some 1047473)),
      (''Interlaken'', mk_station ''INT'' ''BE'' (Some 5821) (Some 47811) (Some 1047473)),
      (''Basel_Binningen'', mk_station ''BAS'' ''BL'' (Some 15616) (Some 157641) (Some 292817)),
      (''Geneve_Cointrin'', mk_station ''GVE'' ''GE'' None None (Some 509448)),
      (''Chur_Ems'', mk_station ''CHU'' ''GR'' (Some 37875) (Some 43233) (Some 201376)),
      (''Disentis'', mk_station ''DIS'' ''GR'' (Some 2033) (Some 21438) (Some 201376)),
      (''Davos'', mk_station ''DAV'' ''GR'' (Some 10648) (Some 26060) (Some 201376)),
      (''Samedan'', mk_station ''SAM'' ''GR'' (Some 3035) (Some 18236) (Some 201376)),
      (''Luzern'', mk_station ''LUZ'' ''LU'' None None (Some 420326)),
      (''Neuchatel'', mk_station ''NEU'' ''NE'' (Some 44485) (Some 176166) (Some 176166)),
      (''Buchs_Suhr'', mk_station ''BUS'' ''AG'' (Some 8270) (Some 81275) (Some 703086)),
      (''Engelberg'', mk_station ''ENG'' ''OW'' None None (Some 38435)),
      (''St_Gallen'', mk_station ''STG'' ''SG'' (Some 76328) (Some 123274) (Some 519245)),
      (''Schaffhausen'', mk_station ''SHA'' ''SH'' (Some 37248) (Some 55740) (Some 83995)),
      (''Lugano'', mk_station ''LUG'' ''TI'' (Some 62123) (Some 151242) (Some 352181)),
      (''Piotta'', mk_station ''PIO'' ''TI'' (Some 974) (Some 8718) (Some 352181)),
      (''Altdorf'', mk_station ''ALT'' ''UR'' None None (Some 37047)),
      (''Pully'', mk_station ''PUY'' ''VD'' (Some 18128) (Some 64270) (Some 822968)),
      (''Sion'', mk_station ''SIO'' ''VS'' (Some 35259) (Some 49023) (Some 353209)),
      (''Zermatt'', mk_station ''ZER'' ''VS'' (Some 5769) (Some 28706) (Some 353209)),
      (''Zuerich_Kloten'', mk_station ''KLO'' ''ZH'' None None (Some 1564662))]"

text \<open>Two small registries.\<close>

definition reg_two :: registry where
  "reg_two = [(''A'', mk_station ''AAA'' ''XX'' None None (Some 100)),
              (''B'', mk_station ''BBB'' ''XX'' None None (Some 100))]"

definition reg_small :: registry where
  "reg_small = [(''Sion'', mk_station ''SIO'' ''VS'' (Some 35259) (Some 49023) (Some 353209)),
                (''Zermatt'', mk_station ''ZER'' ''VS'' (Some 5769) (Some 28706) (Some 353209)),
                (''Altdorf'', mk_station ''ALT'' ''UR'' None None (Some 37047))]"

section \<open>Strings\<close>

text \<open>
  \<^verbatim>\<open>str.split(sep)\<close> for a one-character separator, \<^verbatim>\<open>str.replace(".csv", "")\<close>,
  and \<^verbatim>\<open>int(s)\<close> on ASCII text: surrounding whitespace is stripped, one sign is
  allowed, and the digits may be grouped by single underscores.
\<close>

fun split_on :: "char \<Rightarrow> string \<Rightarrow> string list" where
  "split_on sep [] = [[]]"
| "split_on sep (c # cs) =
     (if c = sep then [] # split_on sep cs
      else (case split_on sep cs of
              [] \<Rightarrow> [[c]]
            | w # ws \<Rightarrow> (c # w) # ws))"

fun remove_csv :: "string \<Rightarrow> string" where
  "remove_csv [] = []"
| "remove_csv (c # cs) =
     (if prefix ''.csv'' (c # cs) then remove_csv (drop 3 cs) else c # remove_csv cs)"

definition digit_val :: "char \<Rightarrow> nat option" where
  "digit_val c =
     map_of [(CHR ''0'', 0), (CHR ''1'', 1), (CHR ''2'', 2), (CHR ''3'', 3), (CHR ''4'', 4),
             (CHR ''5'', 5), (CHR ''6'', 6), (CHR ''7'', 7), (CHR ''8'', 8), (CHR ''9'', 9)] c"

fun digits_acc :: "string \<Rightarrow> nat \<Rightarrow> nat option" where
  "digits_acc [] acc = Some acc"
| "digits_acc (c # cs) acc =
     (case digit_val c of None \<Rightarrow> None | Some d \<Rightarrow> digits_acc cs (10 * acc + d))"

definition digits_val :: "string \<Rightarrow> nat option" where
  "digits_val s = (if s = [] then None else digits_acc s 0)"

definition is_space :: "char \<Rightarrow> bool" where
  "is_space c = (c \<in> set [CHR '' '', CHR 0x09, CHR 0x0A, CHR 0x0B, CHR 0x0C, CHR 0x0D,
                          CHR 0x1C, CHR 0x1D, CHR 0x1E, CHR 0x1F])"

definition strip :: "string \<Rightarrow> string" where
  "strip s = rev (dropWhile is_space (rev (dropWhile is_space s)))"

definition grouped_digits :: "string \<Rightarrow> nat option" where
  "grouped_digits s =
     (if list_all (\<lambda>g. g \<noteq> []) (split_on CHR ''_'' s)
      then digits_val (concat (split_on CHR ''_'' s)) else None)"

definition py_int :: "string \<Rightarrow> int option" where
  "py_int s =
     (case strip s of
        [] \<Rightarrow> None
      | c # cs \<Rightarrow>
          (if c = CHR ''+'' then map_option int (grouped_digits cs)
           else if c = CHR ''-'' then map_option (\<lambda>n. - int n) (grouped_digits cs)
           else map_option int (grouped_digits (c # cs))))"

section \<open>Timestamps\<close>

text \<open>
  A timestamp is a natural number that grows with the instant it stands for and differs
  for different instants; an instant must lie in the range of a pandas Timestamp, from
  1677-09-21 00:12:44 to 2262-04-11 23:47:16. The ISO 8601 format of
  \<^verbatim>\<open>concat_meteo_items\<close> is read with zero-padded fields. The day-first format is
  read as \<^verbatim>\<open>strptime\<close> reads it: day, month, hour and minute have one or two digits
  (the day may also be a space and a digit), the year has four, and the blank of the
  format stands for one or more whitespace characters.
\<close>

definition days_in_month :: "nat \<Rightarrow> nat \<Rightarrow> nat" where
  "days_in_month y m =
     (if m = 4 \<or> m = 6 \<or> m = 9 \<or> m = 11 then 30
      else if m = 2 then (if (y mod 4 = 0 \<and> y mod 100 \<noteq> 0) \<or> y mod 400 = 0 then 29 else 28)
      else 31)"

definition encode_stamp :: "nat \<Rightarrow> nat \<Rightarrow> nat \<Rightarrow> nat \<Rightarrow> nat \<Rightarrow> nat \<Rightarrow> timestamp" where
  "encode_stamp y mo d h mi sec =
     ((((y * 12 + (mo - 1)) * 31 + (d - 1)) * 24 + h) * 60 + mi) * 60 + sec"

definition mk_stamp :: "nat \<Rightarrow> nat \<Rightarrow> nat \<Rightarrow> nat \<Rightarrow> nat \<Rightarrow> nat \<Rightarrow> timestamp option" where
  "mk_stamp y mo d h mi sec =
     (if 1 \<le> mo \<and> mo \<le> 12 \<and> 1 \<le> d \<and> d \<le> days_in_month y mo
         \<and> h < 24 \<and> mi < 60 \<and> sec < 60
         \<and> encode_stamp 1677 9 21 0 12 44 \<le> encode_stamp y mo d h mi sec
         \<and> encode_stamp y mo d h mi sec \<le> encode_stamp 2262 4 11 23 47 16
      then Some (encode_stamp y mo d h mi sec)
      else None)"

definition field :: "nat \<Rightarrow> nat \<Rightarrow> string \<Rightarrow> nat option" where
  "field off len s = digits_val (take len (drop off s))"

definition parse_iso :: "string \<Rightarrow> timestamp option" where
  \<comment> \<open>format \<^verbatim>\<open>%Y-%m-%dT%H:%M:%S\<close>\<close>
  "parse_iso s =
     (if length s = 19 \<and> s ! 4 = CHR ''-'' \<and> s ! 7 = CHR ''-'' \<and> s ! 10 = CHR ''T''
         \<and> s ! 13 = CHR '':'' \<and> s ! 16 = CHR '':''
      then Option.bind (field 0 4 s) (\<lambda>y. Option.bind (field 5 2 s) (\<lambda>mo.
           Option.bind (field 8 2 s) (\<lambda>d. Option.bind (field 11 2 s) (\<lambda>h.
           Option.bind (field 14 2 s) (\<lambda>mi. Option.bind (field 17 2 s) (\<lambda>sec.
             mk_stamp y mo d h mi sec))))))
      else None)"

definition two_digit_field :: "nat \<Rightarrow> nat \<Rightarrow> string \<Rightarrow> nat option" where
  \<comment> \<open>one or two digits whose value lies between the two bounds\<close>
  "two_digit_field lo hi s =
     (if length s = 1 \<or> length s = 2 then
        (case digits_val s of
           None \<Rightarrow> None
         | Some n \<Rightarrow> if lo \<le> n \<and> n \<le> hi then Some n else None)
      else None)"

definition day_field :: "string \<Rightarrow> nat option" where
  "day_field s =
     (case s of
        [c1, c2] \<Rightarrow> if c1 = CHR '' '' then two_digit_field 1 9 [c2] else two_digit_field 1 31 s
      | _ \<Rightarrow> two_digit_field 1 31 s)"

definition year_field :: "string \<Rightarrow> nat option" where
  "year_field s = (if length s = 4 then digits_val s else None)"

definition parse_dayfirst :: "string \<Rightarrow> timestamp option" where
  \<comment> \<open>format \<^verbatim>\<open>%d.%m.%Y %H:%M\<close>\<close>
  "parse_dayfirst s =
     (case split_on CHR ''.'' s of
        [ds, ms, rest] \<Rightarrow>
          (case drop 4 rest of
             [] \<Rightarrow> None
           | c # cs \<Rightarrow>
               if is_space c then
                 (case split_on CHR '':'' (dropWhile is_space cs) of
                    [hs, mis] \<Rightarrow>
                      Option.bind (day_field ds) (\<lambda>d. Option.bind (two_digit_field 1 12 ms) (\<lambda>mo.
                      Option.bind (year_field (take 4 rest)) (\<lambda>y.
                      Option.bind (two_digit_field 0 23 hs) (\<lambda>h.
                      Option.bind (two_digit_field 0 59 mis) (\<lambda>mi. mk_stamp y mo d h mi 0)))))
                  | _ \<Rightarrow> None)
               else None)
      | _ \<Rightarrow> None)"

section \<open>Data frames\<close>

text \<open>
  A pandas DataFrame: column labels, row labels and the cells row by row. Row labels
  are numbers: positions for the RangeIndex of a freshly read file, timestamps once
  \<^verbatim>\<open>set_index("reference_timestamp")\<close> has run. A missing value (NaN, NaT) is \<open>NaN\<close>.
  Floats are idealised as reals.
\<close>

datatype cell = Num real | Str string | Stamp timestamp | NaN

record frame =
  columns :: "string list"
  index :: "nat list"
  cells :: "cell list list"

definition DataFrame :: frame where
  "DataFrame = \<lparr>columns = [], index = [], cells = []\<rparr>"

definition frame_empty :: "frame \<Rightarrow> bool" where
  \<comment> \<open>\<^verbatim>\<open>df.empty\<close>: some axis has length 0\<close>
  "frame_empty df = (columns df = [] \<or> index df = [])"

fun pos :: "'a \<Rightarrow> 'a list \<Rightarrow> nat option" where
  "pos x [] = None"
| "pos x (y # ys) = (if x = y then Some 0 else map_option Suc (pos x ys))"

definition row_of :: "frame \<Rightarrow> nat \<Rightarrow> cell list" where
  "row_of df k = (if k < length (cells df) then cells df ! k else [])"

definition cell_of_row :: "cell list \<Rightarrow> nat \<Rightarrow> cell" where
  "cell_of_row r j = (if j < length r then r ! j else NaN)"

definition column_cell :: "frame \<Rightarrow> cell list \<Rightarrow> string \<Rightarrow> cell" where
  "column_cell df r c = (case pos c (columns df) of None \<Rightarrow> NaN | Some j \<Rightarrow> cell_of_row r j)"

definition padded_row :: "frame \<Rightarrow> nat \<Rightarrow> cell list" where
  "padded_row df k = map (cell_of_row (row_of df k)) [0..<length (columns df)]"

definition reindex_row :: "frame \<Rightarrow> nat \<Rightarrow> cell list" where
  \<comment> \<open>the row labelled \<open>t\<close>, all missing when the frame has no such label\<close>
  "reindex_row df t =
     (case pos t (index df) of
        None \<Rightarrow> replicate (length (columns df)) NaN
      | Some k \<Rightarrow> padded_row df k)"

definition cell_at :: "frame \<Rightarrow> nat \<Rightarrow> string \<Rightarrow> cell" where
  \<comment> \<open>\<^verbatim>\<open>df.loc[t, c]\<close>, missing when the label or the column is absent\<close>
  "cell_at df t c =
     (case pos c (columns df) of
        None \<Rightarrow> NaN
      | Some j \<Rightarrow> cell_of_row (reindex_row df t) j)"

fun map_err :: "('a \<Rightarrow> py_error + 'b) \<Rightarrow> 'a list \<Rightarrow> py_error + 'b list" where
  "map_err f [] = Inr []"
| "map_err f (x # xs) =
     (case f x of
        Inl e \<Rightarrow> Inl e
      | Inr y \<Rightarrow> (case map_err f xs of Inl e \<Rightarrow> Inl e | Inr ys \<Rightarrow> Inr (y # ys)))"

subsection \<open>Reading one file\<close>

text \<open>
  The collaborators of the pipeline. \<open>search\<close> is the catalog request of
  \<^verbatim>\<open>download_meteo_file\<close> with \<^verbatim>\<open>raise_for_status\<close>: the features found, each
  given by its assets (key and href), or the exception. \<open>read_csv\<close> is
  \<^verbatim>\<open>requests.get\<close>, \<^verbatim>\<open>raise_for_status\<close> and \<^verbatim>\<open>pd.read_csv\<close> on one href.
  \<open>loc_range\<close> is the label slice \<^verbatim>\<open>full_df.loc[start_date:end_date]\<close> and \<open>to_csv\<close>
  the writing of \<^verbatim>\<open>./data/station_weight.csv\<close>. \<open>align_nonunique\<close> is what
  \<^verbatim>\<open>pd.concat(frames, axis=1)\<close> answers when the indexes of the frames differ and one
  of them has a duplicate label: a table, or InvalidIndexError when a frame with a
  duplicated index has to be reindexed.
\<close>

record env =
  search :: "string \<Rightarrow> py_error + (string \<times> string) list list"
  read_csv :: "string \<Rightarrow> py_error + frame"
  loc_range :: "py_date \<Rightarrow> py_date \<Rightarrow> frame \<Rightarrow> py_error + frame"
  to_csv :: "registry \<Rightarrow> py_error option"
  align_nonunique :: "frame list \<Rightarrow> py_error + frame"

definition variables :: "(string \<times> string) list" where
  "variables =
     [(''prestah0'', ''atmospheric_pressure''), (''tre200h0'', ''air_temperature''),
      (''rre150h0'', ''rainfall''), (''ure200h0'', ''humidity''),
      (''dkl010h0'', ''wind_direction''), (''gre000h0'', ''global_radiation''),
      (''oli000h0'', ''irradiation''), (''fkl010h0'', ''wind_speed'')]"

definition select_columns :: "string list \<Rightarrow> frame \<Rightarrow> py_error + frame" where
  \<comment> \<open>\<^verbatim>\<open>df[keep_cols]\<close>\<close>
  "select_columns keep_cols df =
     (if list_all (\<lambda>c. c \<in> set (columns df)) keep_cols
      then Inr (df\<lparr>columns := keep_cols,
                   cells := map (\<lambda>r. map (column_cell df r) keep_cols) (cells df)\<rparr>)
      else Inl KeyError)"

definition rename_columns :: "(string \<times> string) list \<Rightarrow> frame \<Rightarrow> frame" where
  "rename_columns vars df =
     df\<lparr>columns := map (\<lambda>c. case map_of vars c of Some n \<Rightarrow> n | None \<Rightarrow> c) (columns df)\<rparr>"

definition fetch_file :: "env \<Rightarrow> (string \<times> string) list \<Rightarrow> string \<Rightarrow> py_error + frame" where
  \<comment> \<open>the body of the \<^verbatim>\<open>try\<close> block of \<^verbatim>\<open>concat_meteo_items\<close>\<close>
  "fetch_file e vars url =
     (case read_csv e url of
        Inl err \<Rightarrow> Inl err
      | Inr df \<Rightarrow>
          (if vars \<noteq> [] then
             (case select_columns
                     (''reference_timestamp'' # filter (\<lambda>v. v \<in> set (columns df)) (map fst vars)) df of
                Inl err \<Rightarrow> Inl err
              | Inr df' \<Rightarrow> Inr (rename_columns vars df'))
           else Inr df))"

text \<open>The loop over \<^verbatim>\<open>files_dict.items()\<close>: \<^verbatim>\<open>except Exception\<close> skips the file.\<close>

fun collect_files ::
  "env \<Rightarrow> (string \<times> string) list \<Rightarrow> (string \<times> string) list \<Rightarrow> frame list \<Rightarrow> frame list" where
  "collect_files e vars [] all_data = all_data"
| "collect_files e vars ((name, url) # rest) all_data =
     (case fetch_file e vars url of
        Inl err \<Rightarrow> collect_files e vars rest all_data
      | Inr df \<Rightarrow> collect_files e vars rest (all_data @ [df]))"

subsection \<open>Concatenating the files of a station\<close>

definition union_columns :: "string list list \<Rightarrow> string list" where
  \<comment> \<open>the column labels in the order of their first appearance\<close>
  "union_columns css = rev (remdups (rev (concat css)))"

definition concat_rows :: "frame list \<Rightarrow> frame" where
  \<comment> \<open>\<^verbatim>\<open>pd.concat(all_data, ignore_index=True)\<close>\<close>
  "concat_rows dfs =
     \<lparr>columns = union_columns (map columns dfs),
      index = [0..<length (concat (map cells dfs))],
      cells = concat (map (\<lambda>df. map (\<lambda>r. map (column_cell df r) (union_columns (map columns dfs)))
                                     (cells df)) dfs)\<rparr>"

fun to_datetime_cell :: "(string \<Rightarrow> timestamp option) \<Rightarrow> cell \<Rightarrow> py_error + cell" where
  "to_datetime_cell parse (Str s) =
     (case parse s of Some t \<Rightarrow> Inr (Stamp t) | None \<Rightarrow> Inl ValueError)"
| "to_datetime_cell parse (Num x) = Inl ValueError"
| "to_datetime_cell parse (Stamp t) = Inr (Stamp t)"
| "to_datetime_cell parse NaN = Inr NaN"

definition to_datetime :: "(string \<Rightarrow> timestamp option) \<Rightarrow> cell list \<Rightarrow> py_error + cell list" where
  \<comment> \<open>\<^verbatim>\<open>pd.to_datetime(column, format=...)\<close>, which raises on the first mismatch\<close>
  "to_datetime parse col = map_err (to_datetime_cell parse) col"

fun coerce_cell :: "cell \<Rightarrow> cell" where
  \<comment> \<open>\<^verbatim>\<open>pd.to_datetime(column, errors="coerce")\<close> on a column that is datetime already\<close>
  "coerce_cell (Stamp t) = Stamp t"
| "coerce_cell c = NaN"

definition get_column :: "string \<Rightarrow> frame \<Rightarrow> cell list" where
  "get_column c df = map (\<lambda>r. column_cell df r c) (cells df)"

definition set_column :: "string \<Rightarrow> cell list \<Rightarrow> frame \<Rightarrow> frame" where
  "set_column c vs df =
     (case pos c (columns df) of
        None \<Rightarrow> df
      | Some j \<Rightarrow> df\<lparr>cells := map (\<lambda>(r, v). r[j := v]) (zip (cells df) vs)\<rparr>)"

definition dropna_subset :: "string \<Rightarrow> frame \<Rightarrow> frame" where
  \<comment> \<open>\<^verbatim>\<open>df.dropna(subset=[c])\<close>\<close>
  "dropna_subset c df =
     df\<lparr>index := map fst (filter (\<lambda>(i, r). column_cell df r c \<noteq> NaN) (zip (index df) (cells df))),
        cells := filter (\<lambda>r. column_cell df r c \<noteq> NaN) (cells df)\<rparr>"

fun stamp_val :: "cell \<Rightarrow> nat" where
  "stamp_val (Stamp t) = t"
| "stamp_val c = 0"

definition drop_nth :: "nat \<Rightarrow> 'a list \<Rightarrow> 'a list" where
  "drop_nth j xs = take j xs @ drop (Suc j) xs"

definition set_index :: "string \<Rightarrow> frame \<Rightarrow> frame" where
  "set_index c df =
     (case pos c (columns df) of
        None \<Rightarrow> df
      | Some j \<Rightarrow>
          \<lparr>columns = drop_nth j (columns df),
           index = map (\<lambda>r. stamp_val (cell_of_row r j)) (cells df),
           cells = map (drop_nth j) (cells df)\<rparr>)"

definition parse_timestamps :: "frame \<Rightarrow> py_error + frame" where
  \<comment> \<open>lines 455 to 467: ISO 8601 on the whole column, else day-first on the whole column\<close>
  "parse_timestamps full_df =
     (if ''reference_timestamp'' \<in> set (columns full_df) then
        (case (case to_datetime parse_iso (get_column ''reference_timestamp'' full_df) of
                 Inr col \<Rightarrow> Inr col
               | Inl err \<Rightarrow> to_datetime parse_dayfirst (get_column ''reference_timestamp'' full_df)) of
           Inl err \<Rightarrow> Inl err
         | Inr col \<Rightarrow>
             Inr (set_index ''reference_timestamp''
                   (dropna_subset ''reference_timestamp''
                     (set_column ''reference_timestamp'' (map coerce_cell col) full_df))))
      else Inr full_df)"

definition concat_meteo_items ::
  "env \<Rightarrow> (string \<times> string) list \<Rightarrow> (string \<times> string) list \<Rightarrow> py_error + frame" where
  "concat_meteo_items e files_dict vars =
     (if collect_files e vars files_dict [] = [] then Inr DataFrame
      else parse_timestamps (concat_rows (collect_files e vars files_dict [])))"




section \<open>Selecting the files of a station\<close>

definition year_of :: "py_date \<Rightarrow> py_error + int" where
  \<comment> \<open>\<^verbatim>\<open>int(date[:4])\<close>; a Timestamp cannot be sliced\<close>
  "year_of d =
     (case d of
        DateStamp t \<Rightarrow> Inl TypeError
      | DateStr s \<Rightarrow> (case py_int (take 4 s) of None \<Rightarrow> Inl ValueError | Some y \<Rightarrow> Inr y))"

definition file_in_range :: "py_date \<Rightarrow> py_date \<Rightarrow> string \<Rightarrow> py_error + bool" where
  "file_in_range start_d end_d k =
     (if sublist ''historical_'' k then
        (case split_on CHR ''-'' (remove_csv (last (split_on CHR ''_'' k))) of
           [start_y, end_y] \<Rightarrow>
             (case py_int start_y of
                None \<Rightarrow> Inl ValueError
              | Some s \<Rightarrow>
                  (case year_of end_d of
                     Inl err \<Rightarrow> Inl err
                   | Inr ye \<Rightarrow>
                       if s \<le> ye then
                         (case py_int end_y of
                            None \<Rightarrow> Inl ValueError
                          | Some e \<Rightarrow>
                              (case year_of start_d of
                                 Inl err \<Rightarrow> Inl err
                               | Inr ys \<Rightarrow> Inr (e \<ge> ys)))
                       else Inr False))
         | _ \<Rightarrow> Inl ValueError)
      else Inr False)"

fun select_in_range ::
  "py_date \<Rightarrow> py_date \<Rightarrow> (string \<times> string) list \<Rightarrow> py_error + (string \<times> string) list" where
  "select_in_range start_d end_d [] = Inr []"
| "select_in_range start_d end_d ((k, v) # rest) =
     (case file_in_range start_d end_d k of
        Inl err \<Rightarrow> Inl err
      | Inr b \<Rightarrow>
          (case select_in_range start_d end_d rest of
             Inl err \<Rightarrow> Inl err
           | Inr sel \<Rightarrow> Inr (if b then (k, v) # sel else sel)))"

definition relevant_files :: "string \<Rightarrow> (string \<times> string) list \<Rightarrow> (string \<times> string) list" where
  "relevant_files fr assets =
     filter (\<lambda>(k, v). sublist (''_'' @ fr @ ''_'') k \<and> suffix ''.csv'' k) assets"

definition selected_files ::
  "string \<Rightarrow> py_date \<Rightarrow> py_date \<Rightarrow> (string \<times> string) list \<Rightarrow> py_error + (string \<times> string) list" where
  "selected_files fr start_d end_d assets =
     select_in_range start_d end_d (relevant_files fr assets)"

text \<open>The year range a file name declares, read the way \<^verbatim>\<open>file_in_range\<close> reads it.\<close>

definition year_range :: "string \<Rightarrow> (int \<times> int) option" where
  "year_range k =
     (case split_on CHR ''-'' (remove_csv (last (split_on CHR ''_'' k))) of
        [start_y, end_y] \<Rightarrow>
          (case (py_int start_y, py_int end_y) of
             (Some s, Some e) \<Rightarrow> Some (s, e)
           | _ \<Rightarrow> None)
      | _ \<Rightarrow> None)"

definition overlaps :: "int \<Rightarrow> int \<Rightarrow> string \<Rightarrow> bool" where
  "overlaps ys ye k =
     (case year_range k of None \<Rightarrow> False | Some (s, e) \<Rightarrow> s \<le> ye \<and> e \<ge> ys)"

definition lower_char :: "char \<Rightarrow> char" where
  "lower_char c =
     (if 65 \<le> (of_char c :: nat) \<and> (of_char c :: nat) \<le> 90 then char_of (of_char c + 32 :: nat) else c)"

definition date_truthy :: "py_date \<Rightarrow> bool" where
  "date_truthy d = (case d of DateStr s \<Rightarrow> s \<noteq> [] | DateStamp t \<Rightarrow> True)"

definition download_meteo_file ::
  "env \<Rightarrow> string \<Rightarrow> py_date \<Rightarrow> py_date \<Rightarrow> string \<Rightarrow> py_error + frame" where
  "download_meteo_file e sid start_d end_d fr =
     (case search e (map lower_char sid) of
        Inl err \<Rightarrow> Inl err
      | Inr items \<Rightarrow>
          (case items of
             [] \<Rightarrow> Inr DataFrame
           | assets # others \<Rightarrow>
               (case selected_files fr start_d end_d assets of
                  Inl err \<Rightarrow> Inl err
                | Inr sel \<Rightarrow>
                    (case concat_meteo_items e sel variables of
                       Inl err \<Rightarrow> Inl err
                     | Inr full_df \<Rightarrow>
                         if \<not> frame_empty full_df \<and> date_truthy start_d \<and> date_truthy end_d
                         then loc_range e start_d end_d full_df
                         else Inr full_df))))"

section \<open>Merging the stations\<close>

text \<open>
  \<^verbatim>\<open>pd.concat(frames, axis=1)\<close>: no frame raises; frames with one common index are set
  side by side as they are; otherwise, when every index is free of duplicates, the new
  index is the union of the indexes, sorted, and every frame is reindexed to it, a row
  it lacks being all missing. The remaining case, indexes that differ and have
  duplicates, is left to \<open>align_nonunique\<close>.
\<close>

definition union_index :: "nat list \<Rightarrow> nat list \<Rightarrow> nat list" where
  "union_index a b = (if b = [] \<or> a = b then a else if a = [] then b else sort (remdups (a @ b)))"

definition union_indexes :: "nat list list \<Rightarrow> nat list" where
  "union_indexes idxs = (case idxs of [] \<Rightarrow> [] | i # rest \<Rightarrow> foldl union_index i rest)"

definition concat_columns :: "env \<Rightarrow> frame list \<Rightarrow> py_error + frame" where
  "concat_columns e dfs =
     (if dfs = [] then Inl ValueError
      else if list_all (\<lambda>df. index df = index (hd dfs)) dfs then
        Inr \<lparr>columns = concat (map columns dfs),
             index = index (hd dfs),
             cells = map (\<lambda>k. concat (map (\<lambda>df. padded_row df k) dfs)) [0..<length (index (hd dfs))]\<rparr>
      else if list_ex (\<lambda>df. \<not> distinct (index df)) dfs then align_nonunique e dfs
      else
        Inr \<lparr>columns = concat (map columns dfs),
             index = union_indexes (map index dfs),
             cells = map (\<lambda>t. concat (map (\<lambda>df. reindex_row df t) dfs))
                         (union_indexes (map index dfs))\<rparr>)"

fun num_of :: "cell \<Rightarrow> real" where
  "num_of (Num x) = x"
| "num_of c = 0"

definition group_total :: "string list \<Rightarrow> cell list \<Rightarrow> string \<Rightarrow> real" where
  \<comment> \<open>the sum of the present values of a row in the columns labelled \<open>n\<close>\<close>
  "group_total cols r n = sum_list (map (\<lambda>cv. num_of (snd cv)) (filter (\<lambda>cv. fst cv = n) (zip cols r)))"

definition groupby_sum :: "frame \<Rightarrow> frame" where
  \<comment> \<open>\<^verbatim>\<open>.groupby(level=0, axis=1).sum()\<close>: missing values are skipped, no value sums to 0\<close>
  "groupby_sum df =
     \<lparr>columns = sort (remdups (columns df)),
      index = index df,
      cells = map (\<lambda>r. map (\<lambda>n. Num (group_total (columns df) r n)) (sort (remdups (columns df))))
                  (cells df)\<rparr>"

definition global_series :: "env \<Rightarrow> frame list \<Rightarrow> py_error + frame" where
  \<comment> \<open>line 247\<close>
  "global_series e weighted =
     (case concat_columns e weighted of Inl err \<Rightarrow> Inl err | Inr wide \<Rightarrow> Inr (groupby_sum wide))"

fun mul_cell :: "real \<Rightarrow> cell \<Rightarrow> py_error + cell" where
  "mul_cell w (Num x) = Inr (Num (x * w))"
| "mul_cell w NaN = Inr NaN"
| "mul_cell w (Str s) = Inl TypeError"
| "mul_cell w (Stamp t) = Inl TypeError"

definition frame_mul :: "frame \<Rightarrow> real \<Rightarrow> py_error + frame" where
  \<comment> \<open>\<^verbatim>\<open>df * weight\<close>\<close>
  "frame_mul df w =
     (case map_err (map_err (mul_cell w)) (cells df) of
        Inl err \<Rightarrow> Inl err
      | Inr cs \<Rightarrow> Inr (df\<lparr>cells := cs\<rparr>))"

definition suffix_columns :: "string \<Rightarrow> frame \<Rightarrow> frame" where
  "suffix_columns sid df = df\<lparr>columns := map (\<lambda>col. col @ ''_'' @ sid) (columns df)\<rparr>"

definition concat_stations_horizontal ::
  "env \<Rightarrow> (string \<times> frame) list \<Rightarrow> string list \<Rightarrow> py_error + frame" where
  "concat_stations_horizontal e meteo_dict exclude_keys =
     (if filter (\<lambda>(sid, df). \<not> (sid \<in> set exclude_keys \<or> frame_empty df)) meteo_dict = []
      then Inr DataFrame
      else concat_columns e
             (map (\<lambda>(sid, df). suffix_columns sid df)
                  (filter (\<lambda>(sid, df). \<not> (sid \<in> set exclude_keys \<or> frame_empty df)) meteo_dict)))"

definition dropna_columns :: "frame \<Rightarrow> frame" where
  \<comment> \<open>\<^verbatim>\<open>data.dropna(axis=1, how='all')\<close>\<close>
  "dropna_columns df =
     df\<lparr>columns := map fst (filter (\<lambda>(c, j). list_ex (\<lambda>r. cell_of_row r j \<noteq> NaN) (cells df))
                                    (zip (columns df) [0..<length (columns df)])),
        cells := map (\<lambda>r. map (cell_of_row r)
                               (filter (\<lambda>j. list_ex (\<lambda>r. cell_of_row r j \<noteq> NaN) (cells df))
                                       [0..<length (columns df)]))
                     (cells df)\<rparr>"

section \<open>The entry point\<close>

definition dict_set :: "('k \<times> 'v) list \<Rightarrow> 'k \<Rightarrow> 'v \<Rightarrow> ('k \<times> 'v) list" where
  \<comment> \<open>\<^verbatim>\<open>d[k] = v\<close> on a dict in insertion order\<close>
  "dict_set d k v =
     (if k \<in> set (map fst d) then map (\<lambda>(k', v'). if k' = k then (k', v) else (k', v')) d
      else d @ [(k, v)])"

text \<open>
  The loop of \<^verbatim>\<open>load_meteo_file\<close> over the stations, with the two dicts \<^verbatim>\<open>meteo\<close>
  and \<^verbatim>\<open>meteo_global\<close> it fills.
\<close>

fun station_loop ::
  "env \<Rightarrow> config \<Rightarrow> registry \<Rightarrow> (string \<times> frame) list \<Rightarrow> (string \<times> frame) list \<Rightarrow>
   py_error + ((string \<times> frame) list \<times> (string \<times> frame) list)" where
  "station_loop e cfg [] meteo meteo_global = Inr (meteo, meteo_global)"
| "station_loop e cfg ((name, st) # rest) meteo meteo_global =
     (case download_meteo_file e (station_id st) (start_date cfg) (end_date cfg) (freq cfg) of
        Inl err \<Rightarrow> Inl err
      | Inr df \<Rightarrow>
          if py_truthy (global_meteo cfg) then
            (case weight st of
               None \<Rightarrow> Inl KeyError
             | Some w \<Rightarrow>
                 (case frame_mul df w of
                    Inl err \<Rightarrow> Inl err
                  | Inr g \<Rightarrow>
                      station_loop e cfg rest (dict_set meteo (station_id st) df)
                        (dict_set meteo_global (station_id st) g)))
          else station_loop e cfg rest (dict_set meteo (station_id st) df) meteo_global)"

definition load_meteo_file :: "env \<Rightarrow> registry \<Rightarrow> config \<Rightarrow> py_error + frame" where
  "load_meteo_file e reg cfg =
     (case compute_station_weights reg of
        Inl err \<Rightarrow> Inl err
      | Inr station_to_canton' \<Rightarrow>
          (case station_loop e cfg station_to_canton' [] [] of
             Inl err \<Rightarrow> Inl err
           | Inr (meteo, meteo_global) \<Rightarrow>
               (case global_series e (map snd meteo_global) of
                  Inl err \<Rightarrow> Inl err
                | Inr g \<Rightarrow>
                    (case concat_stations_horizontal e (dict_set meteo ''global'' g) [] of
                       Inl err \<Rightarrow> Inl err
                     | Inr data \<Rightarrow>
                         (case to_csv e station_to_canton' of
                            Some err \<Rightarrow> Inl err
                          | None \<Rightarrow> Inr (dropna_columns data))))))"

section \<open>Example inputs\<close>

definition cfg_example :: config where
  "cfg_example =
     \<lparr>freq = ''h'', global_meteo = PyBool False, custom_dates = True,
      start_date = DateStr ''2022-01-01'', end_date = DateStr ''2022-12-31'',
      save_dir = [(''save directory'', ''./data/swissmeteo.parquet.gz'')]\<rparr>"

text \<open>A catalog that knows no station.\<close>

definition env_no_items :: env where
  "env_no_items =
     \<lparr>search = (\<lambda>q. Inr []), read_csv = (\<lambda>url. Inl RequestError),
      loc_range = (\<lambda>s e df. Inr df), to_csv = (\<lambda>r. None),
      align_nonunique = (\<lambda>dfs. Inl InvalidIndexError)\<rparr>"

text \<open>
  Two files of one station: \<open>file_mixed\<close> has one day-first and one ISO 8601
  timestamp, \<open>file_late\<close> and \<open>file_early\<close> are an hour apart, the later one listed
  first.
\<close>

definition file_mixed :: frame where
  "file_mixed =
     \<lparr>columns = [''reference_timestamp'', ''tre200h0''], index = [0, 1],
      cells = [[Str ''01.03.2020 14:00'', Num 5], [Str ''2020-03-01T15:00:00'', Num 6]]\<rparr>"

definition file_late :: frame where
  "file_late =
     \<lparr>columns = [''reference_timestamp'', ''tre200h0''], index = [0],
      cells = [[Str ''2020-03-01T15:00:00'', Num 6]]\<rparr>"

definition file_early :: frame where
  "file_early =
     \<lparr>columns = [''reference_timestamp'', ''tre200h0''], index = [0],
      cells = [[Str ''2020-03-01T14:00:00'', Num 5]]\<rparr>"

definition env_files :: env where
  "env_files =
     \<lparr>search = (\<lambda>q. Inr []),
      read_csv = (\<lambda>url. if url = ''mixed'' then Inr file_mixed
                         else if url = ''late'' then Inr file_late
                         else if url = ''early'' then Inr file_early
                         else Inl RequestError),
      loc_range = (\<lambda>s e df. Inr df), to_csv = (\<lambda>r. None),
      align_nonunique = (\<lambda>dfs. Inl InvalidIndexError)\<rparr>"

text \<open>
  Two stations that report a temperature: \<open>series_A\<close> at the instants 10 and 20,
  \<open>series_B\<close> at 20 and 30. \<open>series_gap\<close> has a row whose temperature is missing.
\<close>

definition series_A :: frame where
  "series_A = \<lparr>columns = [''temp''], index = [10, 20], cells = [[Num 10], [Num 20]]\<rparr>"

definition series_B :: frame where
  "series_B = \<lparr>columns = [''temp''], index = [20, 30], cells = [[Num 30], [Num 40]]\<rparr>"

definition series_gap :: frame where
  "series_gap = \<lparr>columns = [''air_temperature''], index = [10], cells = [[NaN]]\<rparr>"

section \<open>Properties of the station weights\<close>

lemma canton_totals_keeps:
  "canton_totals reg cs tt = Inr (cs', tt') \<Longrightarrow> cs \<noteq> [] \<Longrightarrow> cs' \<noteq> []"
  by (induction reg cs tt rule: canton_totals.induct) (auto split: if_splits option.splits)

lemma canton_totals_nonempty:
  "canton_totals reg [] tt = Inr (cs', tt') \<Longrightarrow> reg \<noteq> [] \<Longrightarrow> cs' \<noteq> []"
  by (cases reg) (auto split: option.splits dest: canton_totals_keeps)

lemma normalize_zero: "cs \<noteq> [] \<Longrightarrow> normalize_cantons cs 0 = Inl ZeroDivisionError"
  by (cases cs) auto

lemma canton_totals_missing:
  "canton i \<notin> set (map fst cs) \<union> (canton \<circ> snd) ` set pre \<Longrightarrow> canton_pop i = None \<Longrightarrow>
   canton_totals (pre @ (n, i) # post) cs tt = Inl KeyError"
proof (induction pre arbitrary: cs tt)
  case Nil
  then show ?case by simp
next
  case (Cons a pre)
  obtain n' i' where a: "a = (n', i')" by (cases a)
  show ?case using Cons.prems Cons.IH a
    by (auto split: option.splits)
qed

lemma canton_tt_pop_none:
  "\<forall>(n2, i2) \<in> set reg. canton i2 = c \<longrightarrow> population i2 = None \<Longrightarrow> canton_tt_pop c reg = 0"
  by (induction reg) (auto split: option.splits)

lemma normalize_map_of:
  "normalize_cantons cs tt = Inr cws \<Longrightarrow>
   map_of cws c = map_option (\<lambda>p. real_of_int p / real_of_int tt) (map_of cs c)"
  by (induction cs tt arbitrary: cws rule: normalize_cantons.induct)
     (auto split: if_splits sum.splits)

lemma station_weights_map:
  "station_weights reg cws xs = Inr out \<Longrightarrow>
   out = map (\<lambda>(n, i). (n, i\<lparr>weight := Some (projr (local_weight reg i) * the (map_of cws (canton i)))\<rparr>)) xs"
  by (induction reg cws xs arbitrary: out rule: station_weights.induct)
     (auto split: sum.splits option.splits)

lemma station_weights_defined:
  "station_weights reg cws xs = Inr out \<Longrightarrow> (n, i) \<in> set xs \<Longrightarrow>
   (\<exists>w. local_weight reg i = Inr w) \<and> (\<exists>cw. map_of cws (canton i) = Some cw)"
  by (induction reg cws xs arbitrary: out rule: station_weights.induct)
     (auto split: sum.splits option.splits)

lemma station_weights_ok:
  "\<forall>(n, i) \<in> set xs. (\<exists>w. local_weight reg i = Inr w) \<and> (\<exists>cw. map_of cws (canton i) = Some cw) \<Longrightarrow>
   \<exists>out. station_weights reg cws xs = Inr out"
proof (induction xs)
  case Nil
  then show ?case by simp
next
  case (Cons a xs)
  obtain n i where a: "a = (n, i)" by (cases a)
  from Cons.prems a obtain w cw where "local_weight reg i = Inr w" "map_of cws (canton i) = Some cw"
    by auto
  moreover from Cons obtain out where "station_weights reg cws xs = Inr out" by auto
  ultimately show ?case using a by simp
qed

lemma canton_totals_ok:
  "\<forall>(n, i) \<in> set reg. canton_pop i \<noteq> None \<Longrightarrow> \<exists>cs' tt'. canton_totals reg cs tt = Inr (cs', tt')"
  by (induction reg cs tt rule: canton_totals.induct) (auto split: option.splits)

lemma canton_totals_keys:
  "canton_totals reg cs tt = Inr (cs', tt') \<Longrightarrow>
   set (map fst cs') = set (map fst cs) \<union> (canton \<circ> snd) ` set reg"
  by (induction reg cs tt rule: canton_totals.induct) (auto split: if_splits option.splits)

lemma canton_totals_distinct:
  "canton_totals reg cs tt = Inr (cs', tt') \<Longrightarrow> distinct (map fst cs) \<Longrightarrow> distinct (map fst cs')"
  by (induction reg cs tt rule: canton_totals.induct) (auto split: if_splits option.splits)

lemma canton_totals_sum:
  "canton_totals reg cs tt = Inr (cs', tt') \<Longrightarrow>
   tt' - sum_list (map snd cs') = tt - sum_list (map snd cs)"
  by (induction reg cs tt rule: canton_totals.induct) (auto split: if_splits option.splits)

lemma canton_totals_pos:
  "canton_totals reg cs tt = Inr (cs', tt') \<Longrightarrow> \<forall>p \<in> set (map snd cs). 0 < p \<Longrightarrow>
   \<forall>(n, i) \<in> set reg. \<forall>p. canton_pop i = Some p \<longrightarrow> 0 < p \<Longrightarrow> \<forall>p \<in> set (map snd cs'). 0 < p"
  by (induction reg cs tt rule: canton_totals.induct) (auto split: if_splits option.splits)

lemma sum_list_pos_int: "xs \<noteq> [] \<Longrightarrow> \<forall>x \<in> set xs. (0::int) < x \<Longrightarrow> 0 < sum_list xs"
proof (induction xs)
  case Nil
  then show ?case by simp
next
  case (Cons a xs)
  show ?case
  proof (cases "xs = []")
    case True
    with Cons.prems show ?thesis by simp
  next
    case False
    with Cons have "0 < sum_list xs" by simp
    with Cons.prems show ?thesis by simp
  qed
qed

lemma normalize_cantons_ok:
  "tt \<noteq> 0 \<Longrightarrow>
   normalize_cantons cs tt = Inr (map (\<lambda>(c, p). (c, real_of_int p / real_of_int tt)) cs)"
  by (induction cs tt rule: normalize_cantons.induct) auto

lemma sum_list_div_const:
  "sum_list (map (\<lambda>x. real_of_int (f x) / k) xs) = real_of_int (sum_list (map f xs)) / k"
  by (induction xs) (simp_all add: add_divide_distrib)

lemma sum_list_delta:
  "distinct ks \<Longrightarrow> k \<in> set ks \<Longrightarrow> sum_list (map (\<lambda>c. if k = c then (v::real) else 0) ks) = v"
  by (simp add: sum_list_distinct_conv_sum_set sum.delta')

lemma sum_list_group:
  fixes g :: "'a \<Rightarrow> real"
  shows "distinct ks \<Longrightarrow> \<forall>x \<in> set xs. key x \<in> set ks \<Longrightarrow>
   sum_list (map g xs) = sum_list (map (\<lambda>c. sum_list (map g (filter (\<lambda>x. key x = c) xs))) ks)"
proof (induction xs)
  case Nil
  then show ?case by simp
next
  case (Cons a xs)
  have step: "\<And>c. sum_list (map g (filter (\<lambda>x. key x = c) (a # xs)))
      = (if key a = c then g a else 0) + sum_list (map g (filter (\<lambda>x. key x = c) xs))"
    by simp
  have "sum_list (map (\<lambda>c. sum_list (map g (filter (\<lambda>x. key x = c) (a # xs)))) ks)
      = sum_list (map (\<lambda>c. if key a = c then g a else 0) ks)
        + sum_list (map (\<lambda>c. sum_list (map g (filter (\<lambda>x. key x = c) xs))) ks)"
    unfolding step by (rule sum_list_addf)
  also have "sum_list (map (\<lambda>c. if key a = c then g a else 0) ks) = g a"
    using Cons.prems by (intro sum_list_delta) auto
  also have "sum_list (map (\<lambda>c. sum_list (map g (filter (\<lambda>x. key x = c) xs))) ks) = sum_list (map g xs)"
    using Cons by simp
  finally show ?case by simp
qed

lemma sum_list_filter_key:
  fixes f :: "'a \<Rightarrow> real"
  shows "sum_list (map (\<lambda>x. f x * h (key x)) (filter (\<lambda>x. key x = c) xs))
       = sum_list (map f (filter (\<lambda>x. key x = c) xs)) * h c"
  by (induction xs) (auto simp: algebra_simps)

lemma canton_tt_pop_filter:
  "canton_tt_pop c reg =
   sum_list (map (\<lambda>x. case population (snd x) of Some p \<Rightarrow> p | None \<Rightarrow> 0)
                 (filter (\<lambda>x. canton (snd x) = c) reg))"
  by (induction reg) (auto split: option.splits)

lemma local_sum_one:
  assumes ok: "region_ok reg c" and mem: "filter (\<lambda>x. canton (snd x) = c) reg \<noteq> []"
  shows "sum_list (map (\<lambda>x. projr (local_weight reg (snd x))) (filter (\<lambda>x. canton (snd x) = c) reg)) = 1"
proof (cases "canton_tt_pop c reg = 0")
  case True
  with ok have "length (filter (\<lambda>x. canton (snd x) = c) reg) = 1"
    by (simp add: region_ok_def split_def)
  then obtain x where F: "filter (\<lambda>x. canton (snd x) = c) reg = [x]"
    by (cases "filter (\<lambda>x. canton (snd x) = c) reg") auto
  then have "x \<in> set (filter (\<lambda>x. canton (snd x) = c) reg)" by simp
  then have "canton (snd x) = c" by simp
  with True have "local_weight reg (snd x) = Inr 1" by (simp add: local_weight_def)
  with F show ?thesis by simp
next
  case False
  let ?F = "filter (\<lambda>x. canton (snd x) = c) reg"
  let ?pv = "\<lambda>x. case population (snd x) of Some p \<Rightarrow> p | None \<Rightarrow> 0"
  let ?T = "canton_tt_pop c reg"
  from ok False have allp: "\<forall>x \<in> set ?F. population (snd x) \<noteq> None"
    by (auto simp: region_ok_def split_def list_all_iff)
  have "projr (local_weight reg (snd x)) = real_of_int (?pv x) / real_of_int ?T"
    if "x \<in> set ?F" for x
  proof -
    from that allp have "population (snd x) \<noteq> None" by blast
    then obtain p where "population (snd x) = Some p" by auto
    moreover from that have "canton (snd x) = c" by simp
    ultimately show ?thesis using False by (simp add: local_weight_def)
  qed
  then have "sum_list (map (\<lambda>x. projr (local_weight reg (snd x))) ?F)
        = sum_list (map (\<lambda>x. real_of_int (?pv x) / real_of_int ?T) ?F)"
    by (intro arg_cong[where f = sum_list] map_cong) auto
  also have "\<dots> = real_of_int (sum_list (map ?pv ?F)) / real_of_int ?T"
    by (rule sum_list_div_const)
  also have "sum_list (map ?pv ?F) = ?T" by (simp add: canton_tt_pop_filter)
  finally show ?thesis using False by simp
qed

lemma map_of_keys_values:
  "distinct (map fst xs) \<Longrightarrow> map (\<lambda>c. the (map_of xs c)) (map fst xs) = map snd xs"
  by (auto simp: map_of_is_SomeI intro!: map_cong)

text \<open>
  Claim C2, as the code has it. The weights of the two-station registry \<open>reg_two\<close>,
  whose stations share a region, report no population and carry the total 100, sum
  to 2: each station gets the whole weight of its region.
\<close>

theorem weights_sum_two_stations_counterexample:
  "compute_station_weights reg_two =
     Inr [(''A'', (mk_station ''AAA'' ''XX'' None None (Some 100))\<lparr>weight := Some 1\<rparr>),
          (''B'', (mk_station ''BBB'' ''XX'' None None (Some 100))\<lparr>weight := Some 1\<rparr>)]
   \<and> weight_sum [(''A'', (mk_station ''AAA'' ''XX'' None None (Some 100))\<lparr>weight := Some 1\<rparr>),
                   (''B'', (mk_station ''BBB'' ''XX'' None None (Some 100))\<lparr>weight := Some 1\<rparr>)] = 2"
  by (simp add: compute_station_weights_def reg_two_def mk_station_def local_weight_def weight_sum_def)

text \<open>
  Claim C2, amended: for every non-empty registry whose stations all carry a positive
  parent-region total and whose regions each either have every station reporting a
  population (with a non-zero sum) or consist of one station with no population, the
  weight computation succeeds and the weights sum to exactly 1, every region's total
  being counted once in the national denominator.
\<close>

theorem weights_sum_to_one:
  assumes ne: "reg \<noteq> []"
    and pos: "\<forall>(n, i) \<in> set reg. \<exists>p. canton_pop i = Some p \<and> 0 < p"
    and ok: "\<forall>(n, i) \<in> set reg. region_ok reg (canton i)"
  shows "\<exists>out. compute_station_weights reg = Inr out \<and> weight_sum out = 1"
proof -
  from pos have "\<forall>(n, i) \<in> set reg. canton_pop i \<noteq> None" by auto
  from canton_totals_ok[OF this] obtain cs tt where ct: "canton_totals reg [] 0 = Inr (cs, tt)"
    by blast
  have keys: "set (map fst cs) = (canton \<circ> snd) ` set reg"
    using canton_totals_keys[OF ct] by simp
  have dist: "distinct (map fst cs)" using canton_totals_distinct[OF ct] by simp
  have tt: "tt = sum_list (map snd cs)" using canton_totals_sum[OF ct] by simp
  have csne: "cs \<noteq> []" using canton_totals_nonempty[OF ct ne] .
  have pos2: "\<forall>(n, i) \<in> set reg. \<forall>p. canton_pop i = Some p \<longrightarrow> 0 < p"
    using pos by fastforce
  have "\<forall>p \<in> set (map snd cs). 0 < p"
    using canton_totals_pos[OF ct _ pos2] by simp
  then have ttpos: "0 < tt" unfolding tt using csne by (intro sum_list_pos_int) auto
  let ?cws = "map (\<lambda>(c, p). (c, real_of_int p / real_of_int tt)) cs"
  have nz: "normalize_cantons cs tt = Inr ?cws" using ttpos by (intro normalize_cantons_ok) simp
  have fst_cws: "map fst ?cws = map fst cs" by (simp add: split_def comp_def)
  have lw: "\<exists>w. local_weight reg i = Inr w" if "(n, i) \<in> set reg" for n i
  proof (cases "canton_tt_pop (canton i) reg = 0")
    case True
    then show ?thesis by (simp add: local_weight_def)
  next
    case False
    from ok that have "region_ok reg (canton i)" by auto
    with False that have "population i \<noteq> None"
      by (auto simp: region_ok_def list_all_iff)
    with False show ?thesis by (auto simp: local_weight_def)
  qed
  have cw: "\<exists>cw. map_of ?cws (canton i) = Some cw" if "(n, i) \<in> set reg" for n i
  proof -
    from that keys have "canton i \<in> set (map fst ?cws)" unfolding fst_cws by force
    then have "canton i \<in> dom (map_of ?cws)" by (simp only: dom_map_of_conv_image_fst set_map)
    then show ?thesis by auto
  qed
  from station_weights_ok[of reg reg ?cws] lw cw
  obtain out where sw: "station_weights reg ?cws reg = Inr out" by blast
  have comp: "compute_station_weights reg = Inr out"
    by (simp add: compute_station_weights_def ct nz sw)
  let ?lw = "\<lambda>x. projr (local_weight reg (snd x))"
  let ?cw = "\<lambda>c. the (map_of ?cws c)"
  have "weight_sum out = sum_list (map (\<lambda>x. ?lw x * ?cw (canton (snd x))) reg)"
    unfolding station_weights_map[OF sw] by (simp add: weight_sum_def comp_def split_def)
  also have "\<dots> = sum_list (map (\<lambda>c. sum_list (map (\<lambda>x. ?lw x * ?cw (canton (snd x)))
                                   (filter (\<lambda>x. canton (snd x) = c) reg))) (map fst cs))"
    using keys by (intro sum_list_group dist) auto
  also have "\<dots> = sum_list (map (\<lambda>c. sum_list (map ?lw (filter (\<lambda>x. canton (snd x) = c) reg)) * ?cw c)
                           (map fst cs))"
    by (intro arg_cong[where f = sum_list] map_cong refl)
       (rule sum_list_filter_key[where key = "\<lambda>x. canton (snd x)"])
  also have "\<dots> = sum_list (map ?cw (map fst cs))"
  proof (intro arg_cong[where f = sum_list] map_cong refl)
    fix c assume "c \<in> set (map fst cs)"
    with keys obtain n i where ni: "(n, i) \<in> set reg" "canton i = c" by force
    then have "filter (\<lambda>x. canton (snd x) = c) reg \<noteq> []" by (force simp: filter_empty_conv)
    moreover from ok ni have "region_ok reg c" by auto
    ultimately show "sum_list (map ?lw (filter (\<lambda>x. canton (snd x) = c) reg)) * ?cw c = ?cw c"
      by (simp add: local_sum_one)
  qed
  also have "\<dots> = sum_list (map snd ?cws)"
  proof -
    have "distinct (map fst ?cws)" using dist by (simp only: fst_cws)
    from map_of_keys_values[OF this] have "map ?cw (map fst cs) = map snd ?cws"
      by (simp only: fst_cws)
    then show ?thesis by (simp only:)
  qed
  also have "\<dots> = sum_list (map (\<lambda>x. real_of_int (snd x) / real_of_int tt) cs)"
    by (simp add: comp_def split_def)
  also have "\<dots> = real_of_int (sum_list (map snd cs)) / real_of_int tt"
    by (rule sum_list_div_const)
  also have "\<dots> = 1" using ttpos tt by simp
  finally show ?thesis using comp by blast
qed

theorem weights_sum_to_one_witness:
  "station_to_canton \<noteq> []
   \<and> (\<exists>out. compute_station_weights station_to_canton = Inr out \<and> weight_sum out = 1)"
proof -
  have a: "station_to_canton \<noteq> []" by (simp add: station_to_canton_def)
  have b: "\<forall>(n, i) \<in> set station_to_canton. \<exists>p. canton_pop i = Some p \<and> 0 < p"
    by (simp add: station_to_canton_def mk_station_def)
  have c: "\<forall>(n, i) \<in> set station_to_canton. region_ok station_to_canton (canton i)"
    by code_simp
  from a weights_sum_to_one[OF a b c] show ?thesis by (rule conjI)
qed

text \<open>
  Claim C3, as the code has it. In \<open>reg_two\<close> the region has two stations and none
  reports a population; each gets the local weight 1, not 1/2, and the two final weights
  sum to 2, twice the weight 1 of the region.
\<close>

theorem no_population_region_counterexample:
  "length (filter (\<lambda>x. canton (snd x) = ''XX'') reg_two) = 2
   \<and> local_weight reg_two (mk_station ''AAA'' ''XX'' None None (Some 100)) = Inr 1
   \<and> local_weight reg_two (mk_station ''BBB'' ''XX'' None None (Some 100)) = Inr 1
   \<and> region_weight reg_two ''XX'' = 1
   \<and> (case compute_station_weights reg_two of Inl e \<Rightarrow> 0 | Inr out \<Rightarrow> weight_sum out) = 2"
  by (simp add: compute_station_weights_def reg_two_def mk_station_def local_weight_def
      weight_sum_def region_weight_def)

text \<open>
  Claim C3, amended: in a region where no station reports a population, every station
  receives the local weight 1, so its final weight is the weight of the region; the
  stations of the region have equal weights.
\<close>

theorem no_population_local_weight_one:
  assumes "compute_station_weights reg = Inr out"
    and "(n, i) \<in> set out"
    and "\<forall>(n2, i2) \<in> set reg. canton i2 = canton i \<longrightarrow> population i2 = None"
  shows "local_weight reg i = Inr 1 \<and> weight i = Some (1 * region_weight reg (canton i))"
proof -
  from assms(1) obtain cs tt cws where ct: "canton_totals reg [] 0 = Inr (cs, tt)"
    and nz: "normalize_cantons cs tt = Inr cws" and sw: "station_weights reg cws reg = Inr out"
    by (auto simp: compute_station_weights_def split: sum.splits)
  have z: "canton_tt_pop (canton i) reg = 0" using assms(3) by (rule canton_tt_pop_none)
  then have l1: "local_weight reg i = Inr 1" by (simp add: local_weight_def)
  from assms(2) obtain i0 where i0: "(n, i0) \<in> set reg"
    and i: "i = i0\<lparr>weight := Some (projr (local_weight reg i0) * the (map_of cws (canton i0)))\<rparr>"
    unfolding station_weights_map[OF sw] by auto
  have ci: "canton i = canton i0" using i by simp
  have "local_weight reg i0 = Inr 1" using z ci by (simp add: local_weight_def)
  moreover from station_weights_defined[OF sw i0] obtain cw where cw: "map_of cws (canton i0) = Some cw"
    by blast
  moreover have "cw = region_weight reg (canton i0)"
    using cw normalize_map_of[OF nz, of "canton i0"] ct
    by (auto simp: region_weight_def split: option.splits)
  ultimately have "weight i = Some (1 * region_weight reg (canton i))"
    using i ci by simp
  with l1 show ?thesis by simp
qed

theorem no_population_local_weight_one_witness:
  "compute_station_weights reg_two =
     Inr [(''A'', (mk_station ''AAA'' ''XX'' None None (Some 100))\<lparr>weight := Some 1\<rparr>),
          (''B'', (mk_station ''BBB'' ''XX'' None None (Some 100))\<lparr>weight := Some 1\<rparr>)]
   \<and> local_weight reg_two ((mk_station ''BBB'' ''XX'' None None (Some 100))\<lparr>weight := Some 1\<rparr>) = Inr 1
   \<and> weight ((mk_station ''BBB'' ''XX'' None None (Some 100))\<lparr>weight := Some 1\<rparr>)
       = Some (1 * region_weight reg_two ''XX'')"
proof -
  let ?out = "[(''A'', (mk_station ''AAA'' ''XX'' None None (Some 100))\<lparr>weight := Some 1\<rparr>),
               (''B'', (mk_station ''BBB'' ''XX'' None None (Some 100))\<lparr>weight := Some 1\<rparr>)]"
  let ?i = "(mk_station ''BBB'' ''XX'' None None (Some 100))\<lparr>weight := Some 1\<rparr>"
  have a: "compute_station_weights reg_two = Inr ?out"
    by (simp add: compute_station_weights_def reg_two_def mk_station_def local_weight_def)
  have b: "(''B'', ?i) \<in> set ?out" by simp
  have c: "\<forall>(n2, i2) \<in> set reg_two. canton i2 = canton ?i \<longrightarrow> population i2 = None"
    by (simp add: reg_two_def mk_station_def)
  have d: "canton ?i = ''XX''" by (simp add: mk_station_def)
  show ?thesis using no_population_local_weight_one[OF a b c] a unfolding d by simp
qed

text \<open>
  Claim C9, as the code has it. The weight computation validates nothing: the empty
  registry comes back as the empty registry, and a region whose total is zero, next to a
  region with a non-zero total, gets the weight 0 without any failure.
\<close>

theorem weights_no_validation_counterexample:
  "compute_station_weights [] = Inr []
   \<and> compute_station_weights
        [(''A'', mk_station ''AAA'' ''XX'' None None (Some 0)),
         (''B'', mk_station ''BBB'' ''YY'' None None (Some 100))]
     = Inr [(''A'', (mk_station ''AAA'' ''XX'' None None (Some 0))\<lparr>weight := Some 0\<rparr>),
            (''B'', (mk_station ''BBB'' ''YY'' None None (Some 100))\<lparr>weight := Some 1\<rparr>)]"
  by (simp add: compute_station_weights_def mk_station_def local_weight_def)

text \<open>
  Claim C9, amended: the weight computation, which makes no network call, raises no
  configuration error of its own. It fails with KeyError whenever the first station
  listed for some region lacks the parent-population total, and with ZeroDivisionError
  whenever the registry is not empty and the totals of its regions sum to zero; the
  empty registry is returned as it is.
\<close>

theorem weights_failure_modes:
  "compute_station_weights [] = Inr []
   \<and> (canton i \<notin> (canton \<circ> snd) ` set pre \<and> canton_pop i = None \<longrightarrow>
        compute_station_weights (pre @ (n, i) # post) = Inl KeyError)
   \<and> (reg \<noteq> [] \<and> (\<exists>cs. canton_totals reg [] 0 = Inr (cs, 0)) \<longrightarrow>
        compute_station_weights reg = Inl ZeroDivisionError)"
proof (intro conjI impI)
  show "compute_station_weights [] = Inr []" by (simp add: compute_station_weights_def)
next
  assume "canton i \<notin> (canton \<circ> snd) ` set pre \<and> canton_pop i = None"
  then have "canton_totals (pre @ (n, i) # post) [] 0 = Inl KeyError"
    by (intro canton_totals_missing) auto
  then show "compute_station_weights (pre @ (n, i) # post) = Inl KeyError"
    by (simp add: compute_station_weights_def)
next
  assume a: "reg \<noteq> [] \<and> (\<exists>cs. canton_totals reg [] 0 = Inr (cs, 0))"
  then obtain cs where ct: "canton_totals reg [] 0 = Inr (cs, 0)" by blast
  with a have "cs \<noteq> []" by (auto dest: canton_totals_nonempty)
  then show "compute_station_weights reg = Inl ZeroDivisionError"
    by (simp add: compute_station_weights_def ct normalize_zero)
qed

theorem weights_failure_modes_witness:
  "compute_station_weights
     ([(''B'', mk_station ''BBB'' ''YY'' None None (Some 100))]
        @ (''A'', mk_station ''AAA'' ''XX'' None None None) # []) = Inl KeyError
   \<and> compute_station_weights [(''A'', mk_station ''AAA'' ''XX'' None None (Some 0))]
       = Inl ZeroDivisionError"
proof -
  let ?i = "mk_station ''AAA'' ''XX'' None None None"
  let ?pre = "[(''B'', mk_station ''BBB'' ''YY'' None None (Some 100))]"
  let ?reg = "[(''A'', mk_station ''AAA'' ''XX'' None None (Some 0))]"
  have a: "canton ?i \<notin> (canton \<circ> snd) ` set ?pre \<and> canton_pop ?i = None"
    by (simp add: mk_station_def)
  have b: "?reg \<noteq> [] \<and> (\<exists>cs. canton_totals ?reg [] 0 = Inr (cs, 0))"
    by (simp add: mk_station_def)
  from weights_failure_modes[of ?i ?pre "''A''" "[]" ?reg] a b show ?thesis by blast
qed

section \<open>Properties of the configuration\<close>

text \<open>
  Claim C10: \<^verbatim>\<open>set_global_meteo\<close> raises ValueError exactly when its argument equals
  neither \<^verbatim>\<open>True\<close> nor \<^verbatim>\<open>False\<close> under \<^verbatim>\<open>==\<close>. The integers 1 and 0 are accepted and
  stored as they are, so the field then holds a value that is no boolean.
\<close>

theorem set_global_meteo_accepts_by_equality:
  "set_global_meteo self g =
     (if py_eq g (PyBool True) \<or> py_eq g (PyBool False) then Inr (self\<lparr>global_meteo := g\<rparr>)
      else Inl ValueError)
   \<and> set_global_meteo self (PyInt 1) = Inr (self\<lparr>global_meteo := PyInt 1\<rparr>)
   \<and> set_global_meteo self (PyInt 0) = Inr (self\<lparr>global_meteo := PyInt 0\<rparr>)
   \<and> global_meteo (self\<lparr>global_meteo := PyInt 1\<rparr>) \<notin> {PyBool True, PyBool False}"
  by (auto simp: set_global_meteo_def py_in_def py_eq_def split: option.splits)

theorem set_global_meteo_accepts_by_equality_witness:
  "set_global_meteo cfg_example (PyStr ''yes'') = Inl ValueError
   \<and> set_global_meteo cfg_example (PyInt 1) = Inr (cfg_example\<lparr>global_meteo := PyInt 1\<rparr>)"
  using set_global_meteo_accepts_by_equality[of cfg_example "PyStr ''yes''"]
  by (simp add: py_eq_def)

section \<open>Properties of the file selection\<close>

lemma file_in_range_wf:
  assumes "year_of sd = Inr ys" "year_of ed = Inr ye" "sublist ''historical_'' k \<longrightarrow> year_range k \<noteq> None"
  shows "file_in_range sd ed k = Inr (sublist ''historical_'' k \<and> overlaps ys ye k)"
  using assms
  by (auto simp: file_in_range_def year_range_def overlaps_def split: list.splits option.splits)

lemma select_in_range_filter:
  "\<forall>(k, v) \<in> set xs. file_in_range sd ed k = Inr (P k) \<Longrightarrow>
   select_in_range sd ed xs = Inr (filter (\<lambda>(k, v). P k) xs)"
  by (induction xs) auto

text \<open>
  Claim C6, as the code has it. For the frequency \<open>h\<close> and the window 2022-01-01 to
  2022-12-31, the entry \<^verbatim>\<open>ogd-smn_abo_h_2020-2025.csv\<close> holds the frequency token and
  declares the years 2020 to 2025, which overlap the window; it is left out all the
  same, since its name does not contain \<^verbatim>\<open>historical_\<close>. An entry that does, and
  whose last segment is no year range, is not left out: the selection raises ValueError.
\<close>

theorem file_selection_counterexample:
  "sublist ''_h_'' ''ogd-smn_abo_h_2020-2025.csv''
   \<and> year_range ''ogd-smn_abo_h_2020-2025.csv'' = Some (2020, 2025)
   \<and> year_of (DateStr ''2022-01-01'') = Inr 2022 \<and> year_of (DateStr ''2022-12-31'') = Inr 2022
   \<and> selected_files ''h'' (DateStr ''2022-01-01'') (DateStr ''2022-12-31'')
        [(''ogd-smn_abo_h_2020-2025.csv'', ''u5'')] = Inr []
   \<and> selected_files ''h'' (DateStr ''2022-01-01'') (DateStr ''2022-12-31'')
        [(''ogd-smn_abo_h_historical_x.csv'', ''u1'')] = Inl ValueError"
  by code_simp

text \<open>
  Claim C6, amended: when the two dates are strings whose first four characters give the
  years, and every entry with the frequency token, the suffix \<^verbatim>\<open>.csv\<close> and the marker
  \<^verbatim>\<open>historical_\<close> ends in a year range START-END, the selection keeps, in catalog
  order, exactly the entries whose key contains \<^verbatim>\<open>_FREQ_\<close>, ends in \<^verbatim>\<open>.csv\<close>,
  contains \<^verbatim>\<open>historical_\<close> and declares a range with START at most the end year and
  END at least the start year. Entries without \<^verbatim>\<open>historical_\<close> are left out.
\<close>

theorem selected_files_characterised:
  assumes "year_of sd = Inr ys" "year_of ed = Inr ye"
    and "\<forall>(k, v) \<in> set assets. sublist (''_'' @ fr @ ''_'') k \<and> suffix ''.csv'' k \<and> sublist ''historical_'' k
           \<longrightarrow> year_range k \<noteq> None"
  shows "selected_files fr sd ed assets =
     Inr (filter (\<lambda>(k, v). sublist (''_'' @ fr @ ''_'') k \<and> suffix ''.csv'' k
                          \<and> sublist ''historical_'' k \<and> overlaps ys ye k) assets)"
proof -
  have "\<forall>(k, v) \<in> set (relevant_files fr assets).
          file_in_range sd ed k = Inr (sublist ''historical_'' k \<and> overlaps ys ye k)"
    using assms(3) by (auto simp: relevant_files_def intro!: file_in_range_wf[OF assms(1,2)])
  from select_in_range_filter[OF this] show ?thesis
    by (simp add: selected_files_def relevant_files_def split_def conj_ac cong: conj_cong)
qed

theorem selected_files_characterised_witness:
  "selected_files ''h'' (DateStr ''2022-01-01'') (DateStr ''2022-12-31'')
     [(''ogd-smn_abo_h_historical_2010-2019.csv'', ''u1''),
      (''ogd-smn_abo_h_historical_2020-2025.csv'', ''u2''),
      (''ogd-smn_abo_h_recent.csv'', ''u3''),
      (''ogd-smn_abo_d_historical_2020-2025.csv'', ''u4'')]
   = Inr [(''ogd-smn_abo_h_historical_2020-2025.csv'', ''u2'')]"
proof -
  let ?assets = "[(''ogd-smn_abo_h_historical_2010-2019.csv'', ''u1''),
      (''ogd-smn_abo_h_historical_2020-2025.csv'', ''u2''),
      (''ogd-smn_abo_h_recent.csv'', ''u3''),
      (''ogd-smn_abo_d_historical_2020-2025.csv'', ''u4'')]"
  have a: "year_of (DateStr ''2022-01-01'') = Inr 2022" by code_simp
  have b: "year_of (DateStr ''2022-12-31'') = Inr 2022" by code_simp
  have c: "\<forall>(k, v) \<in> set ?assets. sublist (''_'' @ ''h'' @ ''_'') k \<and> suffix ''.csv'' k \<and> sublist ''historical_'' k
           \<longrightarrow> year_range k \<noteq> None" by code_simp
  have d: "filter (\<lambda>(k, v). sublist (''_'' @ ''h'' @ ''_'') k \<and> suffix ''.csv'' k
                          \<and> sublist ''historical_'' k \<and> overlaps 2022 2022 k) ?assets
     = [(''ogd-smn_abo_h_historical_2020-2025.csv'', ''u2'')]" by code_simp
  show ?thesis using selected_files_characterised[OF a b c] unfolding d .
qed

section \<open>Properties of the concatenation of a station's files\<close>

lemma pos_Some: "pos x xs = Some k \<Longrightarrow> k < length xs \<and> xs ! k = x"
  by (induction xs arbitrary: k) (auto split: if_splits)

lemma pos_None: "(pos x xs = None) = (x \<notin> set xs)"
  by (induction xs) auto

lemma pos_nth: "distinct xs \<Longrightarrow> k < length xs \<Longrightarrow> pos (xs ! k) xs = Some k"
proof (induction xs arbitrary: k)
  case Nil
  then show ?case by simp
next
  case (Cons a xs)
  then show ?case by (cases k) auto
qed












text \<open>
  Claim C7 at its own example. A station whose concatenated table has one row stamped
  \<^verbatim>\<open>01.03.2020 14:00\<close> and one stamped \<^verbatim>\<open>2020-03-01T15:00:00\<close>: each text is read by
  one of the two formats and by that one only, the ISO 8601 pass over the whole column
  fails on the first row, the day-first pass over the whole column fails on the second,
  and \<^verbatim>\<open>concat_meteo_items\<close> ends with ValueError instead of two timestamps.
\<close>

theorem mixed_timestamp_formats_raise:
  "parse_dayfirst ''01.03.2020 14:00'' = Some 64929823200
   \<and> parse_iso ''2020-03-01T15:00:00'' = Some 64929826800
   \<and> parse_iso ''01.03.2020 14:00'' = None
   \<and> parse_dayfirst ''2020-03-01T15:00:00'' = None
   \<and> concat_meteo_items env_files [(''a'', ''mixed'')] variables = Inl ValueError"
proof -
  have a: "parse_dayfirst ''01.03.2020 14:00'' = Some 64929823200"
    by (simp add: parse_dayfirst_def day_field_def two_digit_field_def year_field_def is_space_def
        digits_val_def digit_val_def mk_stamp_def encode_stamp_def days_in_month_def)
  have b: "parse_iso ''2020-03-01T15:00:00'' = Some 64929826800"
    by (simp add: parse_iso_def field_def digits_val_def digit_val_def mk_stamp_def encode_stamp_def
        days_in_month_def)
  have c: "parse_iso ''01.03.2020 14:00'' = None" by (simp add: parse_iso_def)
  have d: "parse_dayfirst ''2020-03-01T15:00:00'' = None" by (simp add: parse_dayfirst_def)
  have f: "collect_files env_files variables [(''a'', ''mixed'')] []
      = [\<lparr>columns = [''reference_timestamp'', ''air_temperature''], index = [0, 1],
          cells = [[Str ''01.03.2020 14:00'', Num 5], [Str ''2020-03-01T15:00:00'', Num 6]]\<rparr>]"
    by (simp add: fetch_file_def env_files_def file_mixed_def variables_def select_columns_def
        rename_columns_def column_cell_def cell_of_row_def)
  have g: "concat_meteo_items env_files [(''a'', ''mixed'')] variables = Inl ValueError"
    unfolding concat_meteo_items_def f
    by (simp add: concat_rows_def union_columns_def column_cell_def
        cell_of_row_def parse_timestamps_def get_column_def to_datetime_def a b c d)
  from a b c d g show ?thesis by blast
qed

section \<open>Properties of the entry point\<close>

lemma station_loop_no_global:
  "\<not> py_truthy (global_meteo cfg) \<Longrightarrow> station_loop e cfg reg meteo mg = Inr (meteo', mg') \<Longrightarrow> mg' = mg"
  by (induction e cfg reg meteo mg rule: station_loop.induct) (auto split: sum.splits)

text \<open>
  Claim C1, as the code has it. With the flag off no station enters \<^verbatim>\<open>meteo_global\<close>,
  and line 247 concatenates its values all the same: \<^verbatim>\<open>pd.concat\<close> of no frame raises
  ValueError. So \<^verbatim>\<open>load_meteo_file\<close> never returns a table when the flag is off: it
  ends with the exception of the weights or of a station's download, or else with this
  ValueError.
\<close>

theorem load_meteo_file_flag_off_raises:
  assumes "\<not> py_truthy (global_meteo cfg)"
  shows "load_meteo_file e reg cfg =
     (case compute_station_weights reg of
        Inl err \<Rightarrow> Inl err
      | Inr stc \<Rightarrow> (case station_loop e cfg stc [] [] of Inl err \<Rightarrow> Inl err | Inr r \<Rightarrow> Inl ValueError))"
  using assms
  by (auto simp: load_meteo_file_def global_series_def concat_columns_def
      split: sum.splits dest: station_loop_no_global)

theorem load_meteo_file_flag_off_raises_witness:
  "\<not> py_truthy (global_meteo cfg_example)
   \<and> load_meteo_file env_no_items reg_small cfg_example = Inl ValueError"
proof -
  have f: "\<not> py_truthy (global_meteo cfg_example)" by (simp add: cfg_example_def)
  obtain out where w: "compute_station_weights reg_small = Inr out"
    by (simp add: compute_station_weights_def reg_small_def mk_station_def local_weight_def)
  have "\<exists>r. station_loop env_no_items cfg_example xs m mg = Inr r" for xs m mg
    by (induction xs arbitrary: m) (auto simp: download_meteo_file_def env_no_items_def f)
  then obtain r where s: "station_loop env_no_items cfg_example out [] [] = Inr r" by blast
  show ?thesis using load_meteo_file_flag_off_raises[OF f, of env_no_items reg_small] f
    by (simp add: w s)
qed

section \<open>Properties of the merged table\<close>

lemma union_index_sorted:
  assumes "sorted a" "distinct a" "sorted b" "distinct b"
  shows "union_index a b = sorted_list_of_set (set a \<union> set b)"
proof -
  have sa: "sorted_list_of_set (set a) = a"
    using assms by (simp add: sorted_list_of_set.idem_if_sorted_distinct)
  have sb: "sorted_list_of_set (set b) = b"
    using assms by (simp add: sorted_list_of_set.idem_if_sorted_distinct)
  have sc: "sort (remdups (a @ b)) = sorted_list_of_set (set a \<union> set b)"
    using sorted_list_of_set_sort_remdups[of "a @ b"] by simp
  consider (1) "b = []" | (2) "b \<noteq> []" "a = b" | (3) "b \<noteq> []" "a \<noteq> b" "a = []"
    | (4) "b \<noteq> []" "a \<noteq> b" "a \<noteq> []"
    by blast
  then show ?thesis
  proof cases
    case 1
    then show ?thesis by (simp add: union_index_def sa)
  next
    case 2
    then show ?thesis using sb by (simp add: union_index_def)
  next
    case 3
    then show ?thesis by (simp add: union_index_def sb)
  next
    case 4
    then show ?thesis by (simp add: union_index_def sc)
  qed
qed

lemma foldl_union_index:
  "sorted i \<Longrightarrow> distinct i \<Longrightarrow> \<forall>b \<in> set rest. sorted b \<and> distinct b \<Longrightarrow>
   foldl union_index i rest = sorted_list_of_set (set i \<union> \<Union>(set ` set rest))"
proof (induction rest arbitrary: i)
  case Nil
  then show ?case by (simp add: sorted_list_of_set.idem_if_sorted_distinct)
next
  case (Cons b rest)
  let ?u = "sorted_list_of_set (set i \<union> set b)"
  have u: "union_index i b = ?u" using Cons.prems by (intro union_index_sorted) auto
  have "foldl union_index ?u rest = sorted_list_of_set (set ?u \<union> \<Union>(set ` set rest))"
    using Cons.prems by (intro Cons.IH) auto
  then show ?case by (simp add: u Un_assoc)
qed

lemma concat_columns_index:
  assumes ne: "dfs \<noteq> []" and sd: "\<forall>df \<in> set dfs. sorted (index df) \<and> distinct (index df)"
  shows "\<exists>data. concat_columns e dfs = Inr data
           \<and> index data = sorted_list_of_set (\<Union>df \<in> set dfs. set (index df))"
proof (cases "list_all (\<lambda>df. index df = index (hd dfs)) dfs")
  case True
  have hdin: "hd dfs \<in> set dfs" using ne by simp
  from True have "\<forall>df \<in> set dfs. index df = index (hd dfs)"
    by (simp only: list_all_iff)
  then have "set (index df) = set (index (hd dfs))" if "df \<in> set dfs" for df
    using that by (intro arg_cong[where f = set]) blast
  then have U: "(\<Union>df \<in> set dfs. set (index df)) = set (index (hd dfs))"
    using hdin by blast
  from sd hdin have "sorted (index (hd dfs))" "distinct (index (hd dfs))" by blast+
  then have I: "sorted_list_of_set (set (index (hd dfs))) = index (hd dfs)"
    by (rule sorted_list_of_set.idem_if_sorted_distinct)
  have "concat_columns e dfs =
      Inr \<lparr>columns = concat (map columns dfs), index = index (hd dfs),
           cells = map (\<lambda>k. concat (map (\<lambda>df. padded_row df k) dfs))
                       [0..<length (index (hd dfs))]\<rparr>"
    using True ne by (simp add: concat_columns_def)
  then show ?thesis by (simp add: U I)
next
  case False
  from ne obtain d ds where dfs: "dfs = d # ds" by (cases dfs) auto
  have nd: "\<not> list_ex (\<lambda>df. \<not> distinct (index df)) dfs"
    using sd by (simp add: list_ex_iff)
  have ui: "union_indexes (map index dfs) = foldl union_index (index d) (map index ds)"
    by (simp add: dfs union_indexes_def)
  have fo: "foldl union_index (index d) (map index ds)
      = sorted_list_of_set (set (index d) \<union> \<Union>(set ` set (map index ds)))"
  proof (rule foldl_union_index)
    show "sorted (index d)" using sd by (simp add: dfs)
    show "distinct (index d)" using sd by (simp add: dfs)
    show "\<forall>b \<in> set (map index ds). sorted b \<and> distinct b" using sd by (auto simp: dfs)
  qed
  have U: "set (index d) \<union> \<Union>(set ` set (map index ds)) = (\<Union>df \<in> set dfs. set (index df))"
    by (auto simp: dfs)
  have "concat_columns e dfs =
      Inr \<lparr>columns = concat (map columns dfs), index = union_indexes (map index dfs),
           cells = map (\<lambda>t. concat (map (\<lambda>df. reindex_row df t) dfs))
                       (union_indexes (map index dfs))\<rparr>"
    using False ne nd by (simp add: concat_columns_def)
  moreover have "union_indexes (map index dfs) = sorted_list_of_set (\<Union>df \<in> set dfs. set (index df))"
    by (simp only: ui fo U)
  ultimately show ?thesis by simp
qed

text \<open>
  Claim C5, as the code has it. Nothing sorts: the line of \<^verbatim>\<open>concat_meteo_items\<close> that
  sorted and dropped duplicates is commented out. A station whose first file holds
  15:00 and whose second file holds 14:00 of the same day keeps that order in its series,
  and the merged table of this one station keeps it too: its row index decreases.
\<close>

theorem merged_index_unsorted_counterexample:
  "concat_meteo_items env_files [(''a'', ''late''), (''b'', ''early'')] variables
     = Inr \<lparr>columns = [''air_temperature''], index = [64929826800, 64929823200],
            cells = [[Num 6], [Num 5]]\<rparr>
   \<and> concat_stations_horizontal env_files
       [(''ABO'', \<lparr>columns = [''air_temperature''], index = [64929826800, 64929823200],
                   cells = [[Num 6], [Num 5]]\<rparr>)] []
     = Inr \<lparr>columns = [''air_temperature_ABO''], index = [64929826800, 64929823200],
            cells = [[Num 6], [Num 5]]\<rparr>
   \<and> \<not> sorted [64929826800, 64929823200 :: nat]"
proof -
  have p: "parse_iso ''2020-03-01T15:00:00'' = Some 64929826800"
          "parse_iso ''2020-03-01T14:00:00'' = Some 64929823200"
    by (simp_all add: parse_iso_def field_def digits_val_def digit_val_def mk_stamp_def encode_stamp_def
        days_in_month_def)
  have f: "collect_files env_files variables [(''a'', ''late''), (''b'', ''early'')] []
      = [\<lparr>columns = [''reference_timestamp'', ''air_temperature''], index = [0],
          cells = [[Str ''2020-03-01T15:00:00'', Num 6]]\<rparr>,
         \<lparr>columns = [''reference_timestamp'', ''air_temperature''], index = [0],
          cells = [[Str ''2020-03-01T14:00:00'', Num 5]]\<rparr>]"
    by (simp add: fetch_file_def env_files_def file_late_def file_early_def variables_def
        select_columns_def rename_columns_def column_cell_def cell_of_row_def)
  have a: "concat_meteo_items env_files [(''a'', ''late''), (''b'', ''early'')] variables
     = Inr \<lparr>columns = [''air_temperature''], index = [64929826800, 64929823200],
            cells = [[Num 6], [Num 5]]\<rparr>"
    unfolding concat_meteo_items_def f
    by (simp add: concat_rows_def union_columns_def column_cell_def
        cell_of_row_def parse_timestamps_def get_column_def to_datetime_def p set_column_def
        dropna_subset_def set_index_def drop_nth_def)
  have b: "concat_stations_horizontal env_files
       [(''ABO'', \<lparr>columns = [''air_temperature''], index = [64929826800, 64929823200],
                   cells = [[Num 6], [Num 5]]\<rparr>)] []
     = Inr \<lparr>columns = [''air_temperature_ABO''], index = [64929826800, 64929823200],
            cells = [[Num 6], [Num 5]]\<rparr>"
    by (simp add: concat_stations_horizontal_def frame_empty_def suffix_columns_def
        concat_columns_def padded_row_def row_of_def cell_of_row_def)
  have c: "\<not> sorted [64929826800, 64929823200 :: nat]" by simp
  from a b c show ?thesis by blast
qed

text \<open>
  Claim C5, amended: for every family of per-station series whose indexes are each
  strictly increasing, the merge succeeds and the row index of the merged table is the
  sorted union of the indexes of the series that are merged (those not excluded and not
  empty), strictly increasing and without duplicates. Inside one station's series no
  sort takes place.
\<close>

theorem merged_index_sorted_union:
  assumes "\<forall>(sid, df) \<in> set meteo. sorted (index df) \<and> distinct (index df)"
  shows "\<exists>data. concat_stations_horizontal e meteo excl = Inr data
      \<and> index data = sorted_list_of_set
            (\<Union>x \<in> {x \<in> set meteo. fst x \<notin> set excl \<and> \<not> frame_empty (snd x)}. set (index (snd x)))
      \<and> sorted_wrt (<) (index data)"
proof -
  let ?kept = "filter (\<lambda>(sid, df). \<not> (sid \<in> set excl \<or> frame_empty df)) meteo"
  let ?dfs = "map (\<lambda>(sid, df). suffix_columns sid df) ?kept"
  let ?U = "\<Union>x \<in> {x \<in> set meteo. fst x \<notin> set excl \<and> \<not> frame_empty (snd x)}. set (index (snd x))"
  have fin: "finite ?U" by auto
  have U: "(\<Union>df \<in> set ?dfs. set (index df)) = ?U"
    by (auto simp: suffix_columns_def split_def)
  show ?thesis
  proof (cases "?kept = []")
    case True
    then have "{x \<in> set meteo. fst x \<notin> set excl \<and> \<not> frame_empty (snd x)} = {}"
      by (auto simp: filter_empty_conv)
    then have U0: "?U = {}" by (simp only: UN_empty)
    have "concat_stations_horizontal e meteo excl = Inr DataFrame"
      using True by (simp add: concat_stations_horizontal_def)
    moreover have "index DataFrame = sorted_list_of_set ?U"
      unfolding U0 by (simp add: DataFrame_def)
    moreover have "sorted_wrt (<) (index DataFrame)" by (simp add: DataFrame_def)
    ultimately show ?thesis by blast
  next
    case False
    then have ne: "?dfs \<noteq> []" by simp
    have "\<forall>df \<in> set ?dfs. sorted (index df) \<and> distinct (index df)"
      using assms by (auto simp: suffix_columns_def)
    from concat_columns_index[OF ne this] obtain data where
      d: "concat_columns e ?dfs = Inr data" "index data = sorted_list_of_set ?U"
      unfolding U by blast
    have "sorted_wrt (<) (index data)" unfolding d(2) using fin
      by (simp add: strict_sorted_iff)
    with d False show ?thesis by (simp add: concat_stations_horizontal_def)
  qed
qed

theorem merged_index_sorted_union_witness:
  "\<exists>data. concat_stations_horizontal env_no_items [(''A'', series_A), (''B'', series_B)] [] = Inr data
         \<and> sorted_wrt (<) (index data)"
proof -
  have a: "\<forall>(sid, df) \<in> set [(''A'', series_A), (''B'', series_B)]. sorted (index df) \<and> distinct (index df)"
    by (simp add: series_A_def series_B_def)
  from merged_index_sorted_union[OF a, where excl = "[]" and e = env_no_items] obtain data where
    d: "concat_stations_horizontal env_no_items [(''A'', series_A), (''B'', series_B)] [] = Inr data
        \<and> index data = sorted_list_of_set
              (\<Union>x \<in> {x \<in> set [(''A'', series_A), (''B'', series_B)].
                        fst x \<notin> set [] \<and> \<not> frame_empty (snd x)}. set (index (snd x)))
        \<and> sorted_wrt (<) (index data)" ..
  from d have d1: "concat_stations_horizontal env_no_items [(''A'', series_A), (''B'', series_B)] [] = Inr data"
    by (rule conjunct1)
  from d have d3: "sorted_wrt (<) (index data)" by (elim conjE)
  from d1 d3 have "concat_stations_horizontal env_no_items [(''A'', series_A), (''B'', series_B)] [] = Inr data
         \<and> sorted_wrt (<) (index data)" by (rule conjI)
  then show ?thesis by (rule exI)
qed

subsection \<open>The global series\<close>

lemma length_reindex_row: "length (reindex_row df t) = length (columns df)"
  by (simp add: reindex_row_def padded_row_def split: option.splits)

lemma group_total_Cons:
  "group_total (c # cs) (v # vs) n = (if c = n then num_of v else 0) + group_total cs vs n"
  by (simp add: group_total_def)

lemma group_total_distinct:
  "distinct cols \<Longrightarrow> length r = length cols \<Longrightarrow>
   group_total cols r n = (case pos n cols of None \<Rightarrow> 0 | Some j \<Rightarrow> num_of (r ! j))"
proof (induction cols arbitrary: r)
  case Nil
  then show ?case by (simp add: group_total_def)
next
  case (Cons c cs)
  then obtain v vs where r: "r = v # vs" by (cases r) auto
  have IH: "group_total cs vs n = (case pos n cs of None \<Rightarrow> 0 | Some j \<Rightarrow> num_of (vs ! j))"
    using Cons r by simp
  show ?case
  proof (cases "n = c")
    case True
    with Cons.prems have "pos n cs = None" by (simp add: pos_None)
    with True IH show ?thesis by (simp add: r group_total_Cons)
  next
    case False
    with IH show ?thesis by (auto simp: r group_total_Cons split: option.splits)
  qed
qed

lemma group_total_cell_at:
  assumes "distinct (columns g)"
  shows "group_total (columns g) (reindex_row g t) n = num_of (cell_at g t n)"
proof -
  have "group_total (columns g) (reindex_row g t) n
      = (case pos n (columns g) of None \<Rightarrow> 0 | Some j \<Rightarrow> num_of (reindex_row g t ! j))"
    using assms by (intro group_total_distinct) (simp_all add: length_reindex_row)
  also have "\<dots> = num_of (cell_at g t n)"
    by (auto simp: cell_at_def cell_of_row_def length_reindex_row split: option.splits dest: pos_Some)
  finally show ?thesis .
qed

lemma group_total_append:
  "length r1 = length c1 \<Longrightarrow>
   group_total (c1 @ c2) (r1 @ r2) n = group_total c1 r1 n + group_total c2 r2 n"
  by (simp add: group_total_def)

lemma group_total_concat:
  "\<forall>g \<in> set gs. length (r g) = length (c g) \<Longrightarrow>
   group_total (concat (map c gs)) (concat (map r gs)) n = sum_list (map (\<lambda>g. group_total (c g) (r g) n) gs)"
proof (induction gs)
  case Nil
  then show ?case by (simp add: group_total_def)
next
  case (Cons g gs)
  then show ?case by (simp add: group_total_append)
qed

lemma concat_columns_rows:
  assumes cc: "concat_columns e gs = Inr W" and di: "\<forall>g \<in> set gs. distinct (index g)"
  shows "columns W = concat (map columns gs) \<and> length (cells W) = length (index W)
       \<and> (\<forall>k < length (index W). cells W ! k = concat (map (\<lambda>g. reindex_row g (index W ! k)) gs))"
proof (cases "list_all (\<lambda>df. index df = index (hd gs)) gs")
  case True
  from cc have ne: "gs \<noteq> []" by (auto simp: concat_columns_def split: if_splits)
  let ?I = "index (hd gs)"
  from cc True ne have W: "W = \<lparr>columns = concat (map columns gs), index = ?I,
       cells = map (\<lambda>k. concat (map (\<lambda>df. padded_row df k) gs)) [0..<length ?I]\<rparr>"
    by (simp add: concat_columns_def)
  have "reindex_row g (?I ! k) = padded_row g k" if "g \<in> set gs" "k < length ?I" for g k
  proof -
    from that True have ig: "index g = ?I" by (simp add: list_all_iff)
    with di that have "distinct ?I" by auto
    with that have "pos (?I ! k) ?I = Some k" by (intro pos_nth)
    with ig show ?thesis by (simp add: reindex_row_def)
  qed
  then have "concat (map (\<lambda>g. reindex_row g (?I ! k)) gs) = concat (map (\<lambda>df. padded_row df k) gs)"
    if "k < length ?I" for k
    using that by (intro arg_cong[where f = concat] map_cong) auto
  then show ?thesis by (simp add: W)
next
  case False
  have nd: "\<not> list_ex (\<lambda>df. \<not> distinct (index df)) gs" using di by (simp add: list_ex_iff)
  with cc False show ?thesis by (auto simp: concat_columns_def split: if_splits)
qed

lemma groupby_sum_cell:
  assumes len: "length (cells W) = length (index W)" and t: "t \<in> set (index W)"
    and n: "n \<in> set (columns W)"
  shows "\<exists>k. pos t (index W) = Some k \<and>
     cell_at (groupby_sum W) t n = Num (group_total (columns W) (cells W ! k) n)"
proof -
  let ?names = "sort (remdups (columns W))"
  from t obtain k where k: "pos t (index W) = Some k" by (cases "pos t (index W)") (auto simp: pos_None)
  then have kl: "k < length (index W)" by (auto dest: pos_Some)
  from n have "n \<in> set ?names" by simp
  then obtain j where j: "pos n ?names = Some j" by (cases "pos n ?names") (auto simp: pos_None)
  then have jl: "j < length ?names" and jn: "?names ! j = n" by (auto dest: pos_Some)
  have "cell_at (groupby_sum W) t n = Num (group_total (columns W) (cells W ! k) n)"
    using k kl j jl jn len
    by (simp add: cell_at_def groupby_sum_def reindex_row_def padded_row_def row_of_def cell_of_row_def)
  with k show ?thesis by blast
qed

lemma global_series_cell:
  assumes gs: "global_series e gs = Inr G"
    and di: "\<forall>g \<in> set gs. distinct (index g) \<and> distinct (columns g)"
    and t: "t \<in> set (index G)" and n: "n \<in> set (columns G)"
  shows "cell_at G t n = Num (sum_list (map (\<lambda>g. num_of (cell_at g t n)) gs))"
proof -
  from gs obtain W where W: "concat_columns e gs = Inr W" and G: "G = groupby_sum W"
    by (auto simp: global_series_def split: sum.splits)
  from di have di': "\<forall>g \<in> set gs. distinct (index g)" by simp
  note R = concat_columns_rows[OF W di']
  from t n have t': "t \<in> set (index W)" and n': "n \<in> set (columns W)"
    by (simp_all add: G groupby_sum_def)
  from groupby_sum_cell[OF _ t' n'] R obtain k where k: "pos t (index W) = Some k"
    and c: "cell_at G t n = Num (group_total (columns W) (cells W ! k) n)"
    unfolding G by blast
  from k have kl: "k < length (index W)" and kt: "index W ! k = t" by (auto dest: pos_Some)
  have "group_total (columns W) (cells W ! k) n
      = group_total (concat (map columns gs)) (concat (map (\<lambda>g. reindex_row g t) gs)) n"
    using R kl kt by simp
  also have "\<dots> = sum_list (map (\<lambda>g. group_total (columns g) (reindex_row g t) n) gs)"
    by (intro group_total_concat) (simp add: length_reindex_row)
  also have "\<dots> = sum_list (map (\<lambda>g. num_of (cell_at g t n)) gs)"
    using di by (intro arg_cong[where f = sum_list] map_cong refl group_total_cell_at) auto
  finally show ?thesis using c by simp
qed

lemma map_err_Inr:
  "map_err f xs = Inr ys \<Longrightarrow> length ys = length xs \<and> (\<forall>i < length xs. f (xs ! i) = Inr (ys ! i))"
proof (induction xs arbitrary: ys)
  case Nil
  then show ?case by simp
next
  case (Cons x xs)
  then obtain y ys' where y: "f x = Inr y" "map_err f xs = Inr ys'" "ys = y # ys'"
    by (auto split: sum.splits)
  with Cons.IH[of ys'] show ?case by (auto simp: nth_Cons split: nat.splits)
qed

lemma mul_cell_num: "mul_cell w a = Inr b \<Longrightarrow> num_of b = num_of a * w"
  by (cases a) auto

lemma frame_mul_cell:
  assumes "frame_mul df w = Inr g"
  shows "columns g = columns df \<and> index g = index df
       \<and> mul_cell w (cell_at df t n) = Inr (cell_at g t n)"
proof -
  from assms obtain cs where cs: "map_err (map_err (mul_cell w)) (cells df) = Inr cs"
    and g: "g = df\<lparr>cells := cs\<rparr>"
    by (auto simp: frame_mul_def split: sum.splits)
  note A = map_err_Inr[OF cs]
  have row: "mul_cell w (cell_of_row (row_of df k) j) = Inr (cell_of_row (row_of g k) j)" for k j
  proof (cases "k < length (cells df)")
    case True
    with A have r: "map_err (mul_cell w) (cells df ! k) = Inr (cs ! k)" by simp
    note B = map_err_Inr[OF r]
    show ?thesis using True A B by (auto simp: row_of_def cell_of_row_def g)
  next
    case False
    with A show ?thesis by (simp add: row_of_def cell_of_row_def g)
  qed
  have pad: "cell_of_row (padded_row d k) j = cell_of_row (row_of d k) j"
    if "j < length (columns d)" for d k j
    using that by (simp add: padded_row_def cell_of_row_def)
  have "mul_cell w (cell_at df t n) = Inr (cell_at g t n)"
  proof (cases "pos n (columns df)")
    case None
    then show ?thesis by (simp add: cell_at_def g)
  next
    case (Some j)
    then have jl: "j < length (columns df)" by (auto dest: pos_Some)
    have cg: "columns g = columns df" "index g = index df" by (simp_all add: g)
    show ?thesis
    proof (cases "pos t (index df)")
      case None
      with Some jl show ?thesis by (simp add: cell_at_def reindex_row_def cell_of_row_def cg)
    next
      case k: (Some k)
      have "cell_at df t n = cell_of_row (row_of df k) j"
        using Some k jl by (simp add: cell_at_def reindex_row_def pad)
      moreover have "cell_at g t n = cell_of_row (row_of g k) j"
        using Some k jl by (simp add: cell_at_def reindex_row_def pad cg)
      ultimately show ?thesis using row[of k j] by simp
    qed
  qed
  then show ?thesis by (simp add: g)
qed

lemma list_all2_set2: "list_all2 R xs ys \<Longrightarrow> y \<in> set ys \<Longrightarrow> \<exists>x \<in> set xs. R x y"
  by (induction rule: list_all2_induct) auto

lemma sum_list_all2:
  fixes f :: "'a \<Rightarrow> real"
  shows "list_all2 R xs ys \<Longrightarrow> (\<And>x y. R x y \<Longrightarrow> f x = h y) \<Longrightarrow>
   sum_list (map f xs) = sum_list (map h ys)"
  by (induction rule: list_all2_induct) auto

text \<open>
  Claim C4, as the code has it. A station whose only row has no temperature: the
  weighted series has no temperature either, and the global series holds the number 0
  at that instant, as the sum of no value.
\<close>

theorem global_value_zero_counterexample:
  "frame_mul series_gap (1 / 2) = Inr series_gap
   \<and> cell_at series_gap 10 ''air_temperature'' = NaN
   \<and> global_series env_no_items [series_gap]
       = Inr \<lparr>columns = [''air_temperature''], index = [10], cells = [[Num 0]]\<rparr>"
proof -
  have a: "frame_mul series_gap (1 / 2) = Inr series_gap"
    by (simp add: series_gap_def frame_mul_def)
  have b: "cell_at series_gap 10 ''air_temperature'' = NaN"
    by (simp add: series_gap_def cell_at_def reindex_row_def padded_row_def row_of_def
        cell_of_row_def)
  have c: "global_series env_no_items [series_gap]
       = Inr \<lparr>columns = [''air_temperature''], index = [10], cells = [[Num 0]]\<rparr>"
    by (simp add: series_gap_def global_series_def concat_columns_def padded_row_def row_of_def
        cell_of_row_def groupby_sum_def group_total_def)
  from a b c show ?thesis by blast
qed

text \<open>
  Claim C4, amended: when the weighted series come from stations whose indexes and
  column labels are free of duplicates, the global value of a variable at a timestamp of
  the global index is the sum, over exactly the stations that report the variable there,
  of the station's value times its weight; where no station reports it, this sum is
  empty and the global value is the number 0, not a missing value.
\<close>

theorem global_value_partial_weighted_sum:
  assumes w: "list_all2 (\<lambda>sw g. frame_mul (fst sw) (snd sw) = Inr g) stations gs"
    and gs: "global_series e gs = Inr G"
    and di: "\<forall>sw \<in> set stations. distinct (index (fst sw)) \<and> distinct (columns (fst sw))"
    and t: "t \<in> set (index G)" and n: "n \<in> set (columns G)"
  shows "cell_at G t n =
           Num (sum_list (map (\<lambda>sw. num_of (cell_at (fst sw) t n) * snd sw)
                              (filter (\<lambda>sw. cell_at (fst sw) t n \<noteq> NaN) stations)))
       \<and> ((\<forall>sw \<in> set stations. cell_at (fst sw) t n = NaN) \<longrightarrow> cell_at G t n = Num 0)"
proof -
  have di': "\<forall>g \<in> set gs. distinct (index g) \<and> distinct (columns g)"
  proof
    fix g assume "g \<in> set gs"
    with list_all2_set2[OF w] obtain sw where
      sw: "sw \<in> set stations" "frame_mul (fst sw) (snd sw) = Inr g"
      by blast
    from frame_mul_cell[OF sw(2)] have "columns g = columns (fst sw)" "index g = index (fst sw)"
      by simp_all
    with di sw(1) show "distinct (index g) \<and> distinct (columns g)" by auto
  qed
  have rel: "num_of (cell_at (fst x) t n) * snd x = num_of (cell_at y t n)"
    if "frame_mul (fst x) (snd x) = Inr y" for x y
  proof -
    from frame_mul_cell[OF that] have "mul_cell (snd x) (cell_at (fst x) t n) = Inr (cell_at y t n)"
      by simp
    then show ?thesis by (simp add: mul_cell_num)
  qed
  have "sum_list (map (\<lambda>sw. num_of (cell_at (fst sw) t n) * snd sw)
                      (filter (\<lambda>sw. cell_at (fst sw) t n \<noteq> NaN) stations))
      = sum_list (map (\<lambda>sw. num_of (cell_at (fst sw) t n) * snd sw) stations)"
    by (rule sum_list_map_filter) auto
  also have "\<dots> = sum_list (map (\<lambda>g. num_of (cell_at g t n)) gs)"
    using w rel by (rule sum_list_all2)
  finally have main: "cell_at G t n =
           Num (sum_list (map (\<lambda>sw. num_of (cell_at (fst sw) t n) * snd sw)
                              (filter (\<lambda>sw. cell_at (fst sw) t n \<noteq> NaN) stations)))"
    using global_series_cell[OF gs di' t n] by simp
  have "cell_at G t n = Num 0" if "\<forall>sw \<in> set stations. cell_at (fst sw) t n = NaN"
  proof -
    from that have "filter (\<lambda>sw. cell_at (fst sw) t n \<noteq> NaN) stations = []"
      by (simp add: filter_empty_conv)
    with main show ?thesis by simp
  qed
  with main show ?thesis by blast
qed

theorem global_value_partial_weighted_sum_witness:
  "global_series env_no_items [series_A\<lparr>cells := [[Num 6], [Num 12]]\<rparr>, series_B\<lparr>cells := [[Num 12], [Num 16]]\<rparr>]
     = Inr \<lparr>columns = [''temp''], index = [10, 20, 30], cells = [[Num 6], [Num 24], [Num 16]]\<rparr>
   \<and> cell_at \<lparr>columns = [''temp''], index = [10, 20, 30], cells = [[Num 6], [Num 24], [Num 16]]\<rparr> 10 ''temp''
       = Num (10 * (3 / 5))
   \<and> cell_at \<lparr>columns = [''temp''], index = [10, 20, 30], cells = [[Num 6], [Num 24], [Num 16]]\<rparr> 20 ''temp''
       = Num (20 * (3 / 5) + 30 * (2 / 5))"
proof -
  let ?stations = "[(series_A, 3 / 5), (series_B, 2 / 5)]"
  let ?gs = "[series_A\<lparr>cells := [[Num 6], [Num 12]]\<rparr>, series_B\<lparr>cells := [[Num 12], [Num 16]]\<rparr>]"
  let ?G = "\<lparr>columns = [''temp''], index = [10, 20, 30], cells = [[Num 6], [Num 24], [Num 16]]\<rparr>"
  have a: "list_all2 (\<lambda>sw g. frame_mul (fst sw) (snd sw) = Inr g) ?stations ?gs"
    by (simp add: frame_mul_def series_A_def series_B_def)
  have b: "global_series env_no_items ?gs = Inr ?G"
    by (simp add: series_A_def series_B_def global_series_def concat_columns_def union_indexes_def
        union_index_def reindex_row_def padded_row_def row_of_def cell_of_row_def groupby_sum_def
        group_total_def)
  have c: "\<forall>sw \<in> set ?stations. distinct (index (fst sw)) \<and> distinct (columns (fst sw))"
    by (simp add: series_A_def series_B_def)
  have t1: "10 \<in> set (index ?G)" and t2: "20 \<in> set (index ?G)" and n: "''temp'' \<in> set (columns ?G)"
    by simp_all
  have v: "cell_at series_A 10 ''temp'' = Num 10" "cell_at series_B 10 ''temp'' = NaN"
          "cell_at series_A 20 ''temp'' = Num 20" "cell_at series_B 20 ''temp'' = Num 30"
    by (simp_all add: series_A_def series_B_def cell_at_def reindex_row_def padded_row_def
        row_of_def cell_of_row_def)
  from global_value_partial_weighted_sum[OF a b c t1 n]
  have "cell_at ?G 10 ''temp'' = Num (10 * (3 / 5))" by (simp add: v)
  moreover from global_value_partial_weighted_sum[OF a b c t2 n]
  have "cell_at ?G 20 ''temp'' = Num (20 * (3 / 5) + 30 * (2 / 5))" by (simp add: v)
  ultimately show ?thesis using b by simp
qed


end
